theory Spec2Isabelle
  imports Complex_Main "HOL-Library.AList" "HOL-Library.Multiset"
begin

section \<open>Data model (src/types/token.ts)\<close>

text \<open>
  A JavaScript \<open>number\<close> is modelled as a real: the comparisons, \<open>Math.max\<close> and the sign
  of a difference used below are exact on finite floating-point values, and \<open>NaN\<close> and the
  infinities are left out. An optional field is an \<open>option\<close> (\<open>None\<close> is \<open>undefined\<close>).
  Strings are byte strings; the addresses handled here are ASCII.
\<close>

record Token =
  token_address :: string
  token_name :: string
  token_ticker :: string
  price_sol :: real
  market_cap_sol :: real
  volume_sol :: real
  liquidity_sol :: real
  transaction_count :: real
  price_1hr_change :: "real option"
  price_24hr_change :: "real option"
  price_7d_change :: "real option"
  protocol :: string
  source :: "string option"
  last_updated :: "real option"

datatype TimePeriod = TP_1h | TP_24h | TP_7d

text \<open>
  \<open>fo_protocol\<close> is the field \<open>protocol\<close> of \<open>FilterOptions\<close>, apart from the field of that
  name of a record. The limit of \<open>PaginationOptions\<close> is an integer.
\<close>

record FilterOptions =
  timePeriod :: "TimePeriod option"
  minVolume :: "real option"
  minLiquidity :: "real option"
  fo_protocol :: "string option"

text \<open>
  The declared type of \<open>SortOptions.field\<close> is a union of five literals, but the route passes
  the query string through unchecked (\<open>req.query.sortBy as any\<close>), and \<open>sortTokens\<close> has a
  \<open>default\<close> branch for it: the field and the order are strings here.
\<close>

record SortOptions =
  field :: string
  order :: string

record PaginationOptions =
  limit :: "int option"
  cursor :: "string option"

record PaginateResult =
  tokens :: "Token list"
  next_cursor :: "string option"

section \<open>JavaScript primitives used by the code\<close>

text \<open>\<open>String.prototype.toLowerCase\<close> on ASCII letters.\<close>

definition lower_char :: "char \<Rightarrow> char" where
  "lower_char c =
     (let n = (of_char c :: nat) in if 65 \<le> n \<and> n \<le> 90 then char_of (n + 32) else c)"

definition toLowerCase :: "string \<Rightarrow> string" where
  "toLowerCase s = map lower_char s"

text \<open>Truthiness of a number and of an optional number (\<open>0\<close> and \<open>undefined\<close> are falsy).\<close>

definition truthy :: "real \<Rightarrow> bool" where
  "truthy x = (x \<noteq> 0)"

definition truthy_opt :: "real option \<Rightarrow> bool" where
  "truthy_opt x = (case x of None \<Rightarrow> False | Some v \<Rightarrow> v \<noteq> 0)"

text \<open>A template literal renders an absent string as \<open>undefined\<close>.\<close>

definition template_str :: "string option \<Rightarrow> string" where
  "template_str s = (case s of None \<Rightarrow> ''undefined'' | Some v \<Rightarrow> v)"

text \<open>
  \<open>Array.prototype.slice(start, end)\<close> with integer arguments: a negative index counts from
  the end, and both are clamped to the array.
\<close>

definition slice :: "'a list \<Rightarrow> int \<Rightarrow> int \<Rightarrow> 'a list" where
  "slice xs start end =
     (let len = int (length xs);
          k = (if start < 0 then max (len + start) 0 else min start len);
          final = (if end < 0 then max (len + end) 0 else min end len)
      in take (nat (final - k)) (drop (nat k) xs))"

text \<open>
  \<open>Array.prototype.sort(compareFn)\<close>: a stable sort (ECMAScript 2019). An element goes
  before the first element that the comparator does not put strictly ahead of it.
\<close>

fun sort_insert :: "('a \<Rightarrow> 'a \<Rightarrow> real) \<Rightarrow> 'a \<Rightarrow> 'a list \<Rightarrow> 'a list" where
  "sort_insert cmp x [] = [x]"
| "sort_insert cmp x (y # ys) =
     (if cmp x y \<le> 0 then x # y # ys else y # sort_insert cmp x ys)"

definition array_sort :: "('a \<Rightarrow> 'a \<Rightarrow> real) \<Rightarrow> 'a list \<Rightarrow> 'a list" where
  "array_sort cmp xs = foldr (sort_insert cmp) xs []"

text \<open>
  \<open>parseInt(s, 10)\<close>: leading white space is skipped, a sign is read, then the longest
  run of decimal digits; with no digit the result is \<open>NaN\<close>, here \<open>None\<close>. The value is an
  unbounded integer (the rounding of digit strings beyond \<open>2^53\<close> is left out).
\<close>

definition isWhiteSpace :: "char \<Rightarrow> bool" where
  "isWhiteSpace c = ((of_char c :: nat) \<in> {9, 10, 11, 12, 13, 32, 160})"

definition isDigit :: "char \<Rightarrow> bool" where
  "isDigit c = (48 \<le> (of_char c :: nat) \<and> (of_char c :: nat) \<le> 57)"

definition digit_value :: "char \<Rightarrow> int" where
  "digit_value c = int (of_char c) - 48"

definition parseInt10 :: "string \<Rightarrow> int option" where
  "parseInt10 s =
     (let s1 = dropWhile isWhiteSpace s;
          negative = (s1 \<noteq> [] \<and> hd s1 = CHR ''-'');
          s2 = (if s1 \<noteq> [] \<and> (hd s1 = CHR ''-'' \<or> hd s1 = CHR ''+'') then tl s1 else s1);
          ds = takeWhile isDigit s2;
          n = foldl (\<lambda>acc c. 10 * acc + digit_value c) 0 ds
      in if ds = [] then None else Some (if negative then - n else n))"

text \<open>\<open>Number.prototype.toString()\<close> of an integer.\<close>

fun toString_nat :: "nat \<Rightarrow> string" where
  "toString_nat n =
     (if n < 10 then [char_of (48 + n)]
      else toString_nat (n div 10) @ [char_of (48 + n mod 10)])"

declare toString_nat.simps [simp del]

definition toString_int :: "int \<Rightarrow> string" where
  "toString_int i = (if i < 0 then CHR ''-'' # toString_nat (nat (- i)) else toString_nat (nat i))"

text \<open>\<open>String.prototype.includes\<close>: the argument occurs as a contiguous substring.\<close>

fun startsWith :: "string \<Rightarrow> string \<Rightarrow> bool" where
  "startsWith s [] = True"
| "startsWith [] (p # ps) = False"
| "startsWith (c # cs) (p # ps) = (c = p \<and> startsWith cs ps)"

fun str_includes :: "string \<Rightarrow> string \<Rightarrow> bool" where
  "str_includes [] sub = (sub = [])"
| "str_includes (c # cs) sub = (startsWith (c # cs) sub \<or> str_includes cs sub)"

section \<open>Merge engine (src/services/aggregator.ts)\<close>

definition calculateDataCompleteness :: "Token \<Rightarrow> nat" where
  "calculateDataCompleteness token =
     (if volume_sol token > 0 then 3 else 0)
   + (if liquidity_sol token > 0 then 2 else 0)
   + (if market_cap_sol token > 0 then 2 else 0)
   + (if transaction_count token > 0 then 1 else 0)
   + (if price_1hr_change token \<noteq> None then 1 else 0)
   + (if price_24hr_change token \<noteq> None then 1 else 0)"

definition mergeTokenData :: "Token \<Rightarrow> Token \<Rightarrow> Token" where
  "mergeTokenData token1 token2 =
     (let score1 = calculateDataCompleteness token1;
          score2 = calculateDataCompleteness token2;
          primary = (if score1 \<ge> score2 then token1 else token2);
          secondary = (if score1 \<ge> score2 then token2 else token1)
      in primary
         \<lparr> source := Some (template_str (source primary) @ '','' @ template_str (source secondary)),
           volume_sol := max (volume_sol primary) (volume_sol secondary),
           liquidity_sol := max (liquidity_sol primary) (liquidity_sol secondary),
           market_cap_sol :=
             (if truthy (market_cap_sol primary) then market_cap_sol primary
              else market_cap_sol secondary),
           transaction_count := max (transaction_count primary) (transaction_count secondary),
           price_sol :=
             (if truthy_opt (last_updated primary) \<and> truthy_opt (last_updated secondary)
              then (if the (last_updated primary) > the (last_updated secondary)
                    then price_sol primary else price_sol secondary)
              else price_sol primary) \<rparr>)"

text \<open>
  The \<open>Map\<close> of \<open>mergeTokens\<close> is an association list in insertion order: \<open>Map.set\<close> on a
  key that is present replaces the value in place, on a new key it appends, which is
  \<open>AList.update\<close>; \<open>Array.from(tokenMap.values())\<close> is the list of second components.
\<close>

fun mergeTokens_loop :: "(string \<times> Token) list \<Rightarrow> Token list \<Rightarrow> (string \<times> Token) list" where
  "mergeTokens_loop tokenMap [] = tokenMap"
| "mergeTokens_loop tokenMap (token # rest) =
     (let key = toLowerCase (token_address token)
      in case map_of tokenMap key of
           None \<Rightarrow> mergeTokens_loop (AList.update key token tokenMap) rest
         | Some existing \<Rightarrow>
             mergeTokens_loop (AList.update key (mergeTokenData existing token) tokenMap) rest)"

definition mergeTokens :: "Token list \<Rightarrow> Token list" where
  "mergeTokens toks = map snd (mergeTokens_loop [] toks)"


subsection \<open>Size limit\<close>

text \<open>
  \<open>MAX_AGGREGATED_TOKENS\<close> is read from the environment when the module is loaded; the
  argument is the value of the variable, \<open>None\<close> when it is unset.
\<close>

definition MAX_AGGREGATED_TOKENS :: "string option \<Rightarrow> int option" where
  "MAX_AGGREGATED_TOKENS env =
     parseInt10 (case env of None \<Rightarrow> ''200'' | Some v \<Rightarrow> if v = [] then ''200'' else v)"

definition or_zero :: "real \<Rightarrow> real" where
  "or_zero x = (if truthy x then x else 0)"

text \<open>
  The cap is the module constant, a parameter here. Against \<open>NaN\<close> the length test is
  false and \<open>slice(0, NaN)\<close> is \<open>slice(0, 0)\<close>.
\<close>

definition limitTokens :: "int option \<Rightarrow> Token list \<Rightarrow> Token list" where
  "limitTokens cap toks =
     (case cap of
        None \<Rightarrow> slice (array_sort (\<lambda>a b. or_zero (volume_sol b) - or_zero (volume_sol a)) toks) 0 0
      | Some c \<Rightarrow>
          if int (length toks) \<le> c then toks
          else slice (array_sort (\<lambda>a b. or_zero (volume_sol b) - or_zero (volume_sol a)) toks) 0 c)"

subsection \<open>Fetch orchestration\<close>

text \<open>
  A provider's \<open>getPopularTokens()\<close> settles with a batch (\<open>Inr\<close>) or a rejection reason
  (\<open>Inl\<close>); \<open>Promise.allSettled\<close> hands the list of outcomes, in the order of the sources,
  to the \<open>flatMap\<close>. Logging is left out.
\<close>

definition sources :: "bool \<Rightarrow> 'p \<Rightarrow> 'p \<Rightarrow> 'p list" where
  "sources enableJupiter dexscreener jupiter =
     [dexscreener] @ (if enableJupiter then [jupiter] else [])"

definition aggregatedTokens :: "('e + Token list) list \<Rightarrow> Token list" where
  "aggregatedTokens results =
     concat (map (\<lambda>result. case result of Inr v \<Rightarrow> v | Inl reason \<Rightarrow> []) results)"

text \<open>The callback that \<open>aggregateTokens\<close> passes to the cache; \<open>Inl\<close> would be a rejection.\<close>

definition aggregateTokens_fetch :: "int option \<Rightarrow> ('e + Token list) list \<Rightarrow> 'e + Token list" where
  "aggregateTokens_fetch cap results =
     (let agg = aggregatedTokens results
      in if length agg = 0 then Inr []
         else (let merged = mergeTokens agg; limited = limitTokens cap merged in Inr limited))"

section \<open>View pipeline (src/services/aggregator.ts)\<close>

datatype js_value = Num real | Str string

text \<open>\<open>token[name]\<close>: the value of a property of a token, \<open>None\<close> when it is \<open>undefined\<close>.\<close>

definition token_property :: "Token \<Rightarrow> string \<Rightarrow> js_value option" where
  "token_property t name =
     (if name = ''token_address'' then Some (Str (token_address t))
      else if name = ''token_name'' then Some (Str (token_name t))
      else if name = ''token_ticker'' then Some (Str (token_ticker t))
      else if name = ''price_sol'' then Some (Num (price_sol t))
      else if name = ''market_cap_sol'' then Some (Num (market_cap_sol t))
      else if name = ''volume_sol'' then Some (Num (volume_sol t))
      else if name = ''liquidity_sol'' then Some (Num (liquidity_sol t))
      else if name = ''transaction_count'' then Some (Num (transaction_count t))
      else if name = ''price_1hr_change'' then map_option Num (price_1hr_change t)
      else if name = ''price_24hr_change'' then map_option Num (price_24hr_change t)
      else if name = ''price_7d_change'' then map_option Num (price_7d_change t)
      else if name = ''protocol'' then Some (Str (protocol t))
      else if name = ''source'' then map_option Str (source t)
      else if name = ''last_updated'' then map_option Num (last_updated t)
      else None)"

fun TimePeriod_str :: "TimePeriod \<Rightarrow> string" where
  "TimePeriod_str TP_1h = ''1h''"
| "TimePeriod_str TP_24h = ''24h''"
| "TimePeriod_str TP_7d = ''7d''"

definition changeField :: "TimePeriod \<Rightarrow> string" where
  "changeField tp = ''price_'' @ TimePeriod_str tp @ ''_change''"

definition filterTokens :: "Token list \<Rightarrow> FilterOptions \<Rightarrow> Token list" where
  "filterTokens toks options =
     (let filtered = toks;
          filtered = (case timePeriod options of
                        None \<Rightarrow> filtered
                      | Some tp \<Rightarrow> filter (\<lambda>token. token_property token (changeField tp) \<noteq> None) filtered);
          filtered = (case minVolume options of
                        None \<Rightarrow> filtered
                      | Some v \<Rightarrow> filter (\<lambda>token. volume_sol token \<ge> v) filtered);
          filtered = (case minLiquidity options of
                        None \<Rightarrow> filtered
                      | Some l \<Rightarrow> filter (\<lambda>token. liquidity_sol token \<ge> l) filtered);
          filtered = (case fo_protocol options of
                        None \<Rightarrow> filtered
                      | Some p \<Rightarrow>
                          if p = [] then filtered
                          else filter (\<lambda>token. str_includes (toLowerCase (protocol token)) (toLowerCase p)) filtered)
      in filtered)"

text \<open>\<open>a.price_24hr_change || a.price_1hr_change || 0\<close>.\<close>

definition price_change_value :: "Token \<Rightarrow> real" where
  "price_change_value a =
     (if truthy_opt (price_24hr_change a) then the (price_24hr_change a)
      else if truthy_opt (price_1hr_change a) then the (price_1hr_change a)
      else 0)"

definition sort_value :: "string \<Rightarrow> Token \<Rightarrow> real option" where
  "sort_value fld a =
     (if fld = ''volume'' then Some (volume_sol a)
      else if fld = ''price_change'' then Some (price_change_value a)
      else if fld = ''market_cap'' then Some (market_cap_sol a)
      else if fld = ''liquidity'' then Some (liquidity_sol a)
      else if fld = ''transaction_count'' then Some (transaction_count a)
      else None)"

definition sort_compare :: "SortOptions \<Rightarrow> Token \<Rightarrow> Token \<Rightarrow> real" where
  "sort_compare options a b =
     (case (sort_value (field options) a, sort_value (field options) b) of
        (Some aValue, Some bValue) \<Rightarrow>
          if order options = ''asc'' then aValue - bValue else bValue - aValue
      | _ \<Rightarrow> 0)"

definition sortTokens :: "Token list \<Rightarrow> SortOptions \<Rightarrow> Token list" where
  "sortTokens toks options = array_sort (sort_compare options) toks"

text \<open>
  \<open>options.limit || 20\<close> takes 20 for an absent limit and for 0; a cursor is read only when
  it is a non-empty string. Neither \<open>parseInt\<close> nor \<open>slice\<close> throws, so the \<open>catch\<close> branch
  is dead and the function has no error result.
\<close>

definition paginateTokens :: "Token list \<Rightarrow> PaginationOptions \<Rightarrow> PaginateResult" where
  "paginateTokens toks options =
     (let lim = (case limit options of None \<Rightarrow> 20 | Some l \<Rightarrow> if l = 0 then 20 else l);
          startIndex =
            (case cursor options of
               None \<Rightarrow> 0
             | Some c \<Rightarrow>
                 if c = [] then 0
                 else (case parseInt10 c of
                         None \<Rightarrow> 0
                       | Some n \<Rightarrow> if n < 0 then 0 else n));
          endIndex = startIndex + lim
      in \<lparr> tokens = slice toks startIndex endIndex,
           next_cursor =
             (if endIndex < int (length toks) then Some (toString_int endIndex) else None) \<rparr>)"

section \<open>Retry with backoff (src/utils/retry.ts)\<close>

text \<open>
  What the operation can throw: an Axios error, with the status of its response when there
  is one, or anything else. The operation is given by the outcome of each of its
  invocations, numbered from 0. The delays only pass time and are left out.
\<close>

datatype error = AxiosError "int option" | OtherError string

record RetryConfig =
  maxRetries :: "int option"
  retryableStatusCodes :: "int list option"

definition default_maxRetries :: int where
  "default_maxRetries = 3"

definition default_retryableStatusCodes :: "int list" where
  "default_retryableStatusCodes = [429, 500, 502, 503, 504]"

definition isAxiosError :: "error \<Rightarrow> bool" where
  "isAxiosError e = (case e of AxiosError _ \<Rightarrow> True | OtherError _ \<Rightarrow> False)"

definition isRetryable :: "int list \<Rightarrow> error \<Rightarrow> bool" where
  "isRetryable codes e =
     (case e of AxiosError (Some status) \<Rightarrow> status \<in> set codes | _ \<Rightarrow> False)"

text \<open>
  The loop, from \<open>attempt\<close> on. The result is what the call returns (\<open>Inr\<close>) or throws
  (\<open>Inl\<close>; \<open>lastError\<close> starts as \<open>null\<close>, here \<open>None\<close>), with the number of invocations made.
\<close>

function retry_loop ::
  "(nat \<Rightarrow> error + 'a) \<Rightarrow> int \<Rightarrow> int list \<Rightarrow> int \<Rightarrow> error option \<Rightarrow> nat
     \<Rightarrow> (error option + 'a) \<times> nat" where
  "retry_loop fn maxR codes attempt lastError calls =
     (if attempt \<le> maxR then
        (case fn calls of
           Inr v \<Rightarrow> (Inr v, calls + 1)
         | Inl e \<Rightarrow>
             if attempt = maxR then (Inl (Some e), calls + 1)
             else if \<not> isRetryable codes e \<and> \<not> isAxiosError e then (Inl (Some e), calls + 1)
             else retry_loop fn maxR codes (attempt + 1) (Some e) (calls + 1))
      else (Inl lastError, calls))"
  by pat_completeness auto
termination
  by (relation "measure (\<lambda>(fn, maxR, codes, attempt, lastError, calls). nat (maxR + 1 - attempt))") auto

declare retry_loop.simps [simp del]

definition retryWithBackoff :: "(nat \<Rightarrow> error + 'a) \<Rightarrow> RetryConfig \<Rightarrow> (error option + 'a) \<times> nat" where
  "retryWithBackoff fn config =
     (let maxR = (case maxRetries config of None \<Rightarrow> default_maxRetries | Some m \<Rightarrow> m);
          codes = (case retryableStatusCodes config of
                     None \<Rightarrow> default_retryableStatusCodes | Some cs \<Rightarrow> cs)
      in retry_loop fn maxR codes 0 None 0)"


section \<open>Cache store (src/services/cache.ts)\<close>

text \<open>
  The in-memory tier is an association list in insertion order; the clock (\<open>Date.now()\<close>)
  and the answer of the Redis server are arguments of each operation. A cached value is
  of a type without \<open>null\<close>, as the token lists cached by the aggregator are.
\<close>

record 'v CacheEntry =
  entry_value :: 'v
  expiresAt :: int

record 'v CacheService =
  client :: bool
  defaultTTL :: int
  inMemoryCache :: "(string \<times> 'v CacheEntry) list"
  redisAvailable :: bool
  redisEnabled :: bool

text \<open>
  What \<open>client.get\<close> does: it rejects (or its data does not parse), resolves to nothing,
  or resolves to the serialised value. What \<open>client.setex\<close> does: it resolves or rejects.
\<close>

datatype 'v redis_get = GetError | GetNull | GetData 'v

datatype redis_write = WriteOk | WriteError

fun is_data :: "'v redis_get \<Rightarrow> bool" where
  "is_data (GetData v) = True"
| "is_data GetNull = False"
| "is_data GetError = False"

text \<open>The constructor: Redis is not available before its \<open>connect\<close> event.\<close>

definition new_CacheService :: "bool \<Rightarrow> int \<Rightarrow> 'v CacheService" where
  "new_CacheService enabled ttl =
     \<lparr> client = enabled, defaultTTL = ttl, inMemoryCache = [], redisAvailable = False,
       redisEnabled = enabled \<rparr>"

definition getFromMemory :: "int \<Rightarrow> string \<Rightarrow> 'v CacheService \<Rightarrow> 'v option \<times> 'v CacheService" where
  "getFromMemory now key st =
     (case map_of (inMemoryCache st) key of
        None \<Rightarrow> (None, st)
      | Some entry \<Rightarrow>
          if now > expiresAt entry
          then (None, st \<lparr> inMemoryCache := AList.delete key (inMemoryCache st) \<rparr>)
          else (Some (entry_value entry), st))"

definition cleanupMemoryCache :: "int \<Rightarrow> 'v CacheService \<Rightarrow> 'v CacheService" where
  "cleanupMemoryCache now st =
     st \<lparr> inMemoryCache :=
            filter (\<lambda>(key, entry). \<not> now > expiresAt entry) (inMemoryCache st) \<rparr>"

definition setInMemory :: "int \<Rightarrow> string \<Rightarrow> 'v \<Rightarrow> int \<Rightarrow> 'v CacheService \<Rightarrow> 'v CacheService" where
  "setInMemory now key v ttl st =
     (let expires = now + ttl * 1000;
          st1 = st \<lparr> inMemoryCache :=
                  AList.update key \<lparr> entry_value = v, expiresAt = expires \<rparr> (inMemoryCache st) \<rparr>
      in if length (inMemoryCache st1) > 1000 then cleanupMemoryCache now st1 else st1)"

definition cache_get ::
  "int \<Rightarrow> 'v redis_get \<Rightarrow> string \<Rightarrow> 'v CacheService \<Rightarrow> 'v option \<times> 'v CacheService" where
  "cache_get now reply key st =
     (if redisEnabled st \<and> redisAvailable st \<and> client st then
        (case reply of
           GetData data \<Rightarrow> (Some data, st)
         | GetNull \<Rightarrow> getFromMemory now key st
         | GetError \<Rightarrow> getFromMemory now key (st \<lparr> redisAvailable := False \<rparr>))
      else getFromMemory now key st)"

text \<open>\<open>ttl || this.defaultTTL\<close>.\<close>

definition cacheTTL :: "int option \<Rightarrow> 'v CacheService \<Rightarrow> int" where
  "cacheTTL ttl st =
     (case ttl of None \<Rightarrow> defaultTTL st | Some t \<Rightarrow> if t = 0 then defaultTTL st else t)"

definition cache_set ::
  "int \<Rightarrow> redis_write \<Rightarrow> string \<Rightarrow> 'v \<Rightarrow> int option \<Rightarrow> 'v CacheService \<Rightarrow> 'v CacheService" where
  "cache_set now reply key v ttl st =
     (let st1 = setInMemory now key v (cacheTTL ttl st) st
      in if redisEnabled st1 \<and> redisAvailable st1 \<and> client st1 then
           (case reply of WriteOk \<Rightarrow> st1 | WriteError \<Rightarrow> st1 \<lparr> redisAvailable := False \<rparr>)
         else st1)"

text \<open>\<open>generateKey(prefix, ...parts)\<close>: the prefix and the parts joined by colons.\<close>

fun join_colon :: "string list \<Rightarrow> string" where
  "join_colon [] = []"
| "join_colon [p] = p"
| "join_colon (p # q # ps) = p @ '':'' @ join_colon (q # ps)"

definition generateKey :: "string \<Rightarrow> string list \<Rightarrow> string" where
  "generateKey prefix parts = prefix @ '':'' @ join_colon parts"

text \<open>
  \<open>getOrSet\<close> run by one caller with nothing in between: \<open>fetched\<close> is what \<open>fetchFn\<close>
  yields if it is invoked; the first clock and reply are those of \<open>get\<close>, the second
  those of \<open>set\<close>.
\<close>

definition getOrSet ::
  "int \<Rightarrow> 'v redis_get \<Rightarrow> string \<Rightarrow> 'e + 'v \<Rightarrow> int \<Rightarrow> redis_write \<Rightarrow> int option
     \<Rightarrow> 'v CacheService \<Rightarrow> ('e + 'v) \<times> 'v CacheService" where
  "getOrSet now reply key fetched now' reply' ttl st =
     (case cache_get now reply key st of
        (Some cached, st1) \<Rightarrow> (Inr cached, st1)
      | (None, st1) \<Rightarrow>
          (case fetched of
             Inl e \<Rightarrow> (Inl e, st1)
           | Inr data \<Rightarrow> (Inr data, cache_set now' reply' key data ttl st1)))"

text \<open>\<open>aggregateTokens\<close>: the callback of the fetch orchestration behind the cache.\<close>

definition aggregateTokens ::
  "int option \<Rightarrow> ('e + Token list) list \<Rightarrow> int \<Rightarrow> Token list redis_get \<Rightarrow> int \<Rightarrow> redis_write
     \<Rightarrow> Token list CacheService \<Rightarrow> ('e + Token list) \<times> Token list CacheService" where
  "aggregateTokens cap results now reply now' reply' st =
     getOrSet now reply (generateKey ''tokens'' [''aggregated''])
       (aggregateTokens_fetch cap results) now' reply' (Some 30) st"

subsection \<open>Concurrent callers of \<open>getOrSet\<close>\<close>

text \<open>
  The process is single-threaded: a caller of \<open>getOrSet(key, fetchFn, ttl)\<close> runs until it
  awaits and other callers run in between. A caller takes two steps. \<open>Call\<close>: it looks the
  key up (\<open>get\<close>) and either returns the cached value or invokes \<open>fetchFn\<close> and awaits its
  promise. \<open>FetchSettled\<close>: the promise of its invocation settles; on a value the caller
  stores it (\<open>set\<close>) and returns it, on a rejection the error propagates. Each step
  carries the clock and the answer of Redis, whose round trip is taken within the step;
  what an invocation of \<open>fetchFn\<close> yields comes with its \<open>FetchSettled\<close> step. \<open>RedisConnection\<close> is a connection event of the
  client (\<open>connect\<close>, \<open>ready\<close>: up; \<open>error\<close>, \<open>close\<close>: down). \<open>fetchCalls\<close> counts the
  invocations of \<open>fetchFn\<close>. All callers use the same key and ttl.
\<close>

datatype ('e, 'v) caller =
  NotCalled | AwaitingFetch | ReturnedCached 'v | ReturnedFetched 'v | Threw 'e

datatype ('e, 'v) event =
    Call nat int "'v redis_get"
  | FetchSettled nat int "'e + 'v" redis_write
  | RedisConnection bool

record ('e, 'v) system =
  cache :: "'v CacheService"
  fetchCalls :: nat
  callers :: "('e, 'v) caller list"

definition init :: "'v CacheService \<Rightarrow> nat \<Rightarrow> ('e, 'v) system" where
  "init c n = \<lparr> cache = c, fetchCalls = 0, callers = replicate n NotCalled \<rparr>"

fun getOrSet_step ::
  "string \<Rightarrow> int option \<Rightarrow> ('e, 'v) system \<Rightarrow> ('e, 'v) event \<Rightarrow> ('e, 'v) system" where
  "getOrSet_step key ttl s (Call i now reply) =
     (if i < length (callers s) \<and> callers s ! i = NotCalled then
        (case cache_get now reply key (cache s) of
           (Some cached, c) \<Rightarrow>
             s \<lparr> cache := c, callers := (callers s)[i := ReturnedCached cached] \<rparr>
         | (None, c) \<Rightarrow>
             s \<lparr> cache := c, fetchCalls := fetchCalls s + 1,
                 callers := (callers s)[i := AwaitingFetch] \<rparr>)
      else s)"
| "getOrSet_step key ttl s (FetchSettled i now outcome reply) =
     (if i < length (callers s) \<and> callers s ! i = AwaitingFetch then
        (case outcome of
           Inl e \<Rightarrow> s \<lparr> callers := (callers s)[i := Threw e] \<rparr>
         | Inr data \<Rightarrow>
             s \<lparr> cache := cache_set now reply key data ttl (cache s),
                 callers := (callers s)[i := ReturnedFetched data] \<rparr>)
      else s)"
| "getOrSet_step key ttl s (RedisConnection up) =
     (if client (cache s) then s \<lparr> cache := (cache s) \<lparr> redisAvailable := up \<rparr> \<rparr> else s)"

definition getOrSet_run ::
  "string \<Rightarrow> int option \<Rightarrow> ('e, 'v) event list \<Rightarrow> ('e, 'v) system \<Rightarrow> ('e, 'v) system" where
  "getOrSet_run key ttl evs s = foldl (getOrSet_step key ttl) s evs"

text \<open>The callers whose lookup missed, that is, who invoked \<open>fetchFn\<close>.\<close>

fun missed :: "('e, 'v) caller \<Rightarrow> bool" where
  "missed NotCalled = False"
| "missed AwaitingFetch = True"
| "missed (ReturnedCached v) = False"
| "missed (ReturnedFetched v) = True"
| "missed (Threw e) = True"

section \<open>Example records\<close>

text \<open>The three records of the repository's aggregator test.\<close>

definition mock_A :: Token where
  "mock_A = \<lparr> token_address = ''0x123'', token_name = ''Token A'', token_ticker = ''TKA'',
      price_sol = 1 / 1000, market_cap_sol = 1000, volume_sol = 500, liquidity_sol = 200,
      transaction_count = 100, price_1hr_change = Some 10, price_24hr_change = Some 20,
      price_7d_change = None, protocol = ''Raydium'', source = Some ''dexscreener'',
      last_updated = None \<rparr>"

definition mock_B :: Token where
  "mock_B = \<lparr> token_address = ''0x456'', token_name = ''Token B'', token_ticker = ''TKB'',
      price_sol = 2 / 1000, market_cap_sol = 2000, volume_sol = 1000, liquidity_sol = 400,
      transaction_count = 200, price_1hr_change = Some (- 5), price_24hr_change = Some 15,
      price_7d_change = None, protocol = ''Jupiter'', source = Some ''jupiter'',
      last_updated = None \<rparr>"

definition mock_C :: Token where
  "mock_C = \<lparr> token_address = ''0x789'', token_name = ''Token C'', token_ticker = ''TKC'',
      price_sol = 3 / 1000, market_cap_sol = 3000, volume_sol = 1500, liquidity_sol = 600,
      transaction_count = 300, price_1hr_change = Some 25, price_24hr_change = Some 30,
      price_7d_change = None, protocol = ''Raydium'', source = Some ''dexscreener'',
      last_updated = None \<rparr>"

text \<open>
  Two records of one identity from sources \<open>a\<close> and \<open>b\<close>, read in the same millisecond;
  nothing but volume and liquidity is populated.
\<close>

definition token_a :: Token where
  "token_a = \<lparr> token_address = ''0xabc'', token_name = ''Alpha'', token_ticker = ''ALP'',
      price_sol = 1, market_cap_sol = 0, volume_sol = 500, liquidity_sol = 0,
      transaction_count = 0, price_1hr_change = None, price_24hr_change = None,
      price_7d_change = None, protocol = ''Raydium'', source = Some ''a'',
      last_updated = Some 1000 \<rparr>"

definition token_b :: Token where
  "token_b = \<lparr> token_address = ''0xABC'', token_name = ''Beta'', token_ticker = ''BET'',
      price_sol = 2, market_cap_sol = 0, volume_sol = 300, liquidity_sol = 200,
      transaction_count = 0, price_1hr_change = None, price_24hr_change = None,
      price_7d_change = None, protocol = ''Orca'', source = Some ''b'',
      last_updated = Some 1000 \<rparr>"

text \<open>Two records of one identity with the same completeness score.\<close>

definition token_c :: Token where
  "token_c = \<lparr> token_address = ''0xdef'', token_name = ''Gamma'', token_ticker = ''GAM'',
      price_sol = 1, market_cap_sol = 10, volume_sol = 500, liquidity_sol = 0,
      transaction_count = 0, price_1hr_change = Some 4, price_24hr_change = None,
      price_7d_change = None, protocol = ''Raydium'', source = Some ''a'',
      last_updated = Some 1000 \<rparr>"

definition token_d :: Token where
  "token_d = \<lparr> token_address = ''0xDEF'', token_name = ''Delta'', token_ticker = ''DEL'',
      price_sol = 2, market_cap_sol = 20, volume_sol = 300, liquidity_sol = 0,
      transaction_count = 0, price_1hr_change = Some 6, price_24hr_change = None,
      price_7d_change = None, protocol = ''Orca'', source = Some ''b'',
      last_updated = Some 1000 \<rparr>"

text \<open>A record whose one-hour change is exactly 0.\<close>

definition token_flat_1h :: Token where
  "token_flat_1h = mock_A \<lparr> price_1hr_change := Some 0 \<rparr>"

text \<open>A record whose 24-hour change is exactly 0 and whose one-hour change is 50.\<close>

definition token_flat_24h :: Token where
  "token_flat_24h = mock_A \<lparr> price_1hr_change := Some 50, price_24hr_change := Some 0 \<rparr>"

definition only_timePeriod_1h :: FilterOptions where
  "only_timePeriod_1h =
     \<lparr> timePeriod = Some TP_1h, minVolume = None, minLiquidity = None, fo_protocol = None \<rparr>"

definition default_config :: RetryConfig where
  "default_config = \<lparr> maxRetries = None, retryableStatusCodes = None \<rparr>"

text \<open>
  Two callers of \<open>getOrSet\<close> on the aggregator's key: both look the key up before either
  fetch has settled; the two fetches yield different batches.
\<close>

definition two_callers :: "(string, Token list) event list" where
  "two_callers =
     [Call 0 1000 GetNull, Call 1 1000 GetNull,
      FetchSettled 0 1500 (Inr [mock_A]) WriteOk, FetchSettled 1 1600 (Inr [mock_B]) WriteOk]"

text \<open>A cache that holds an aggregate of one record, stored at time 1000 for 30 seconds.\<close>

definition warm_cache :: "Token list CacheService" where
  "warm_cache =
     cache_set 1000 WriteOk (generateKey ''tokens'' [''aggregated'']) [mock_C] (Some 30)
       (new_CacheService False 30)"

section \<open>Auxiliary definitions for the proofs\<close>

text \<open>Every entry of the map is stored under the lower-cased address of its record.\<close>

definition keyed :: "(string \<times> Token) list \<Rightarrow> bool" where
  "keyed m = (\<forall>(k, t) \<in> set m. toLowerCase (token_address t) = k)"

section \<open>Merging\<close>

lemma keys_update: "fst ` set (AList.update k v m) = insert k (fst ` set m)"
  by (induction m) auto

lemma loop_keys:
  "fst ` set (mergeTokens_loop m ts) = fst ` set m \<union> (toLowerCase \<circ> token_address) ` set ts"
proof (induction m ts rule: mergeTokens_loop.induct)
  case (1 m)
  then show ?case by simp
next
  case (2 m token rest)
  show ?case
  proof (cases "map_of m (toLowerCase (token_address token))")
    case None
    with 2(1)[OF refl None] show ?thesis by (simp add: keys_update)
  next
    case (Some existing)
    then have "toLowerCase (token_address token) \<in> fst ` set m"
      by (metis map_of_SomeD fst_conv image_eqI)
    with 2(2)[OF refl Some] Some show ?thesis by (auto simp add: keys_update)
  qed
qed

lemma loop_distinct: "distinct (map fst m) \<Longrightarrow> distinct (map fst (mergeTokens_loop m ts))"
  by (induction m ts rule: mergeTokens_loop.induct)
     (auto simp: Let_def distinct_update split: option.splits)

lemma mergeTokenData_address:
  "token_address (mergeTokenData a b) = token_address a \<or>
   token_address (mergeTokenData a b) = token_address b"
  by (simp add: mergeTokenData_def Let_def)

lemma keyed_update:
  "keyed m \<Longrightarrow> toLowerCase (token_address t) = k \<Longrightarrow> keyed (AList.update k t m)"
  unfolding keyed_def by (induction m) (auto split: if_splits)

lemma loop_keyed: "keyed m \<Longrightarrow> keyed (mergeTokens_loop m ts)"
proof (induction m ts rule: mergeTokens_loop.induct)
  case (1 m)
  then show ?case by simp
next
  case (2 m token rest)
  show ?case
  proof (cases "map_of m (toLowerCase (token_address token))")
    case None
    with 2 show ?thesis by (simp add: keyed_update)
  next
    case (Some existing)
    then have "(toLowerCase (token_address token), existing) \<in> set m"
      by (rule map_of_SomeD)
    with 2(3) have "toLowerCase (token_address existing) = toLowerCase (token_address token)"
      unfolding keyed_def by auto
    then have "toLowerCase (token_address (mergeTokenData existing token)) =
        toLowerCase (token_address token)"
      using mergeTokenData_address[of existing token] by auto
    with 2 Some show ?thesis by (simp add: keyed_update)
  qed
qed

lemma keyed_map: "keyed m \<Longrightarrow> map (toLowerCase \<circ> token_address) (map snd m) = map fst m"
  unfolding keyed_def by (induction m) auto

text \<open>
  C5. The merge of a batch has one record for each distinct lower-cased address of the
  batch: its length is the number of these keys, no key occurs twice in it, and its keys
  are exactly those of the batch.
\<close>

theorem mergeTokens_one_per_key:
  "length (mergeTokens ts) = card ((toLowerCase \<circ> token_address) ` set ts) \<and>
   distinct (map (toLowerCase \<circ> token_address) (mergeTokens ts)) \<and>
   set (map (toLowerCase \<circ> token_address) (mergeTokens ts)) =
     (toLowerCase \<circ> token_address) ` set ts"
proof -
  let ?m = "mergeTokens_loop [] ts"
  have k: "keyed ?m" by (rule loop_keyed) (simp add: keyed_def)
  have d: "distinct (map fst ?m)" by (rule loop_distinct) simp
  have s: "set (map fst ?m) = (toLowerCase \<circ> token_address) ` set ts"
    using loop_keys[of "[]" ts] by simp
  have e: "map (toLowerCase \<circ> token_address) (mergeTokens ts) = map fst ?m"
    unfolding mergeTokens_def by (rule keyed_map[OF k])
  have "length (mergeTokens ts) = length (map fst ?m)" by (simp add: mergeTokens_def)
  also have "\<dots> = card (set (map fst ?m))" using d by (rule distinct_card[symmetric])
  finally have "length (mergeTokens ts) = card ((toLowerCase \<circ> token_address) ` set ts)"
    unfolding s .
  then show ?thesis using d s unfolding e by simp
qed

lemma mergeTokens_pair:
  "toLowerCase (token_address a) = toLowerCase (token_address b) \<Longrightarrow>
   mergeTokens [a, b] = [mergeTokenData a b]"
  by (simp add: mergeTokens_def)

lemma mergeTokenData_primary:
  "calculateDataCompleteness t1 \<ge> calculateDataCompleteness t2 \<Longrightarrow>
   mergeTokenData t1 t2 = t1
         \<lparr> source := Some (template_str (source t1) @ '','' @ template_str (source t2)),
           volume_sol := max (volume_sol t1) (volume_sol t2),
           liquidity_sol := max (liquidity_sol t1) (liquidity_sol t2),
           market_cap_sol := (if market_cap_sol t1 \<noteq> 0 then market_cap_sol t1 else market_cap_sol t2),
           transaction_count := max (transaction_count t1) (transaction_count t2),
           price_sol :=
             (if truthy_opt (last_updated t1) \<and> truthy_opt (last_updated t2)
              then (if the (last_updated t1) > the (last_updated t2)
                    then price_sol t1 else price_sol t2)
              else price_sol t1) \<rparr>"
  by (simp add: mergeTokenData_def Let_def truthy_def)

lemma mergeTokenData_secondary:
  "calculateDataCompleteness t1 < calculateDataCompleteness t2 \<Longrightarrow>
   mergeTokenData t1 t2 = t2
         \<lparr> source := Some (template_str (source t2) @ '','' @ template_str (source t1)),
           volume_sol := max (volume_sol t2) (volume_sol t1),
           liquidity_sol := max (liquidity_sol t2) (liquidity_sol t1),
           market_cap_sol := (if market_cap_sol t2 \<noteq> 0 then market_cap_sol t2 else market_cap_sol t1),
           transaction_count := max (transaction_count t2) (transaction_count t1),
           price_sol :=
             (if truthy_opt (last_updated t2) \<and> truthy_opt (last_updated t1)
              then (if the (last_updated t2) > the (last_updated t1)
                    then price_sol t2 else price_sol t1)
              else price_sol t2) \<rparr>"
  by (simp add: mergeTokenData_def Let_def truthy_def)

text \<open>
  C2, as stated, fails on the two example records: \<open>b\<close> has the higher completeness score
  (5 against 3), so it is the primary and the provenance is \<open>b,a\<close>, not \<open>a,b\<close>; and with
  equal timestamps the merged price is the secondary's (1), not the primary's (2).
\<close>

theorem mergeTokens_scenario_counterexample:
  "mergeTokens [token_a, token_b] =
     [token_b \<lparr> source := Some ''b,a'', volume_sol := 500, price_sol := 1 \<rparr>] \<and>
   calculateDataCompleteness token_a = 3 \<and> calculateDataCompleteness token_b = 5 \<and>
   last_updated token_a = last_updated token_b \<and>
   price_sol token_b = 2"
  by code_simp

text \<open>
  C2, amended. Two records with the same lower-cased address merge into one record. The
  primary is the first record unless the second has the strictly higher completeness
  score. The merged record has the primary's address, name and category; its provenance
  is the primary's source, a comma, the secondary's source; volume, liquidity and
  transaction count are the maxima; the market value is the primary's unless that is 0,
  then the secondary's. When both timestamps are present and non-zero the price is the
  primary's if the primary's timestamp is strictly the later one and the secondary's
  otherwise (also when the timestamps are equal); when a timestamp is absent or 0 the
  price is the primary's. For sources \<open>a\<close> (volume 500, liquidity 0) and \<open>b\<close> (volume 300,
  liquidity 200) the result has volume 500, liquidity 200, and provenance \<open>a,b\<close> when the
  first record is the primary, \<open>b,a\<close> when the second is.
\<close>

theorem mergeTokens_pair_fields:
  assumes key: "toLowerCase (token_address a) = toLowerCase (token_address b)"
    and p: "primary = (if calculateDataCompleteness a \<ge> calculateDataCompleteness b then a else b)"
    and s: "secondary = (if calculateDataCompleteness a \<ge> calculateDataCompleteness b then b else a)"
  shows "\<exists>m. mergeTokens [a, b] = [m] \<and>
           token_address m = token_address primary \<and>
           token_name m = token_name primary \<and>
           protocol m = protocol primary \<and>
           source m = Some (template_str (source primary) @ '','' @ template_str (source secondary)) \<and>
           volume_sol m = max (volume_sol a) (volume_sol b) \<and>
           liquidity_sol m = max (liquidity_sol a) (liquidity_sol b) \<and>
           market_cap_sol m =
             (if market_cap_sol primary \<noteq> 0 then market_cap_sol primary else market_cap_sol secondary) \<and>
           transaction_count m = max (transaction_count a) (transaction_count b) \<and>
           (\<forall>tp ts. last_updated primary = Some tp \<and> last_updated secondary = Some ts \<and>
                    tp \<noteq> 0 \<and> ts \<noteq> 0
               \<longrightarrow> price_sol m = (if tp > ts then price_sol primary else price_sol secondary)) \<and>
           (last_updated primary \<in> {None, Some 0} \<or> last_updated secondary \<in> {None, Some 0}
               \<longrightarrow> price_sol m = price_sol primary) \<and>
           (source a = Some ''a'' \<and> volume_sol a = 500 \<and> liquidity_sol a = 0 \<and>
            source b = Some ''b'' \<and> volume_sol b = 300 \<and> liquidity_sol b = 200
               \<longrightarrow> volume_sol m = 500 \<and> liquidity_sol m = 200 \<and>
                   source m = Some (if calculateDataCompleteness a \<ge> calculateDataCompleteness b
                                    then ''a,b'' else ''b,a''))"
proof (cases "calculateDataCompleteness a \<ge> calculateDataCompleteness b")
  case True
  then have "primary = a" "secondary = b" using p s by simp_all
  then show ?thesis
    using True
    by (auto simp: mergeTokens_pair[OF key] mergeTokenData_primary truthy_opt_def template_str_def)
next
  case False
  then have "primary = b" "secondary = a" using p s by simp_all
  moreover from False have "calculateDataCompleteness a < calculateDataCompleteness b" by simp
  ultimately show ?thesis
    using False
    by (auto simp: mergeTokens_pair[OF key] mergeTokenData_secondary truthy_opt_def
        template_str_def max.commute)
qed

theorem mergeTokens_pair_fields_witness:
  "toLowerCase (token_address token_a) = toLowerCase (token_address token_b) \<and>
   token_b = (if calculateDataCompleteness token_a \<ge> calculateDataCompleteness token_b
              then token_a else token_b) \<and>
   (\<exists>m. mergeTokens [token_a, token_b] = [m] \<and> token_name m = ''Beta'' \<and>
        source m = Some ''b,a'' \<and> volume_sol m = 500 \<and> liquidity_sol m = 200)"
proof -
  have key: "toLowerCase (token_address token_a) = toLowerCase (token_address token_b)"
    by code_simp
  have p: "token_b = (if calculateDataCompleteness token_a \<ge> calculateDataCompleteness token_b
              then token_a else token_b)"
    by code_simp
  have s: "token_a = (if calculateDataCompleteness token_a \<ge> calculateDataCompleteness token_b
              then token_b else token_a)"
    by code_simp
  have v: "token_name token_b = ''Beta''" "source token_a = Some ''a''" "source token_b = Some ''b''"
    "volume_sol token_a = 500" "volume_sol token_b = 300"
    "liquidity_sol token_a = 0" "liquidity_sol token_b = 200"
    by (simp_all add: token_a_def token_b_def)
  from mergeTokens_pair_fields[OF key p s] obtain m where
    m: "mergeTokens [token_a, token_b] = [m]" "token_name m = token_name token_b"
      "source m = Some (template_str (source token_b) @ '','' @ template_str (source token_a))"
      "volume_sol m = max (volume_sol token_a) (volume_sol token_b)"
      "liquidity_sol m = max (liquidity_sol token_a) (liquidity_sol token_b)"
    by blast
  then have "mergeTokens [token_a, token_b] = [m] \<and> token_name m = ''Beta'' \<and>
        source m = Some ''b,a'' \<and> volume_sol m = 500 \<and> liquidity_sol m = 200"
    by (simp add: v template_str_def)
  then show ?thesis using key p by blast
qed

text \<open>
  C4, as stated, fails on two records of equal score (6 each): merged in the two orders
  they differ in provenance, market value, price, ticker, change value and in the spelling
  of the address, not only in name and category.
\<close>

theorem mergeTokens_order_counterexample:
  "calculateDataCompleteness token_c = calculateDataCompleteness token_d \<and>
   toLowerCase (token_address token_c) = toLowerCase (token_address token_d) \<and>
   mergeTokens [token_c, token_d] = [token_c \<lparr> source := Some ''a,b'', price_sol := 2 \<rparr>] \<and>
   mergeTokens [token_d, token_c] =
     [token_d \<lparr> source := Some ''b,a'', volume_sol := 500, price_sol := 1 \<rparr>]"
  by code_simp

text \<open>
  C4, amended. For two records A and B with the same lower-cased address and equal
  completeness scores, the merges of \<open>[A, B]\<close> and of \<open>[B, A]\<close> are single records with the
  same volume, liquidity and transaction count; with the same market value when one of the
  two values is 0 or both are equal; and with the same price when both timestamps are
  present, non-zero and different. The address, name, ticker, category, change values and
  timestamp are those of the record that comes first in the input, and the provenance
  joins the sources in input order.
\<close>

theorem mergeTokens_order:
  assumes key: "toLowerCase (token_address a) = toLowerCase (token_address b)"
    and eq: "calculateDataCompleteness a = calculateDataCompleteness b"
  shows "\<exists>m1 m2. mergeTokens [a, b] = [m1] \<and> mergeTokens [b, a] = [m2] \<and>
           volume_sol m1 = volume_sol m2 \<and>
           liquidity_sol m1 = liquidity_sol m2 \<and>
           transaction_count m1 = transaction_count m2 \<and>
           (market_cap_sol a = 0 \<or> market_cap_sol b = 0 \<or> market_cap_sol a = market_cap_sol b
              \<longrightarrow> market_cap_sol m1 = market_cap_sol m2) \<and>
           (\<forall>ta tb. last_updated a = Some ta \<and> last_updated b = Some tb \<and>
                    ta \<noteq> 0 \<and> tb \<noteq> 0 \<and> ta \<noteq> tb
              \<longrightarrow> price_sol m1 = price_sol m2) \<and>
           token_address m1 = token_address a \<and> token_address m2 = token_address b \<and>
           token_name m1 = token_name a \<and> token_name m2 = token_name b \<and>
           token_ticker m1 = token_ticker a \<and> token_ticker m2 = token_ticker b \<and>
           protocol m1 = protocol a \<and> protocol m2 = protocol b \<and>
           price_1hr_change m1 = price_1hr_change a \<and> price_1hr_change m2 = price_1hr_change b \<and>
           price_24hr_change m1 = price_24hr_change a \<and> price_24hr_change m2 = price_24hr_change b \<and>
           price_7d_change m1 = price_7d_change a \<and> price_7d_change m2 = price_7d_change b \<and>
           last_updated m1 = last_updated a \<and> last_updated m2 = last_updated b \<and>
           source m1 = Some (template_str (source a) @ '','' @ template_str (source b)) \<and>
           source m2 = Some (template_str (source b) @ '','' @ template_str (source a))"
proof -
  have 1: "mergeTokens [a, b] = [mergeTokenData a b]"
    by (rule mergeTokens_pair[OF key])
  have 2: "mergeTokens [b, a] = [mergeTokenData b a]"
    by (rule mergeTokens_pair[OF key[symmetric]])
  have 3: "calculateDataCompleteness a \<ge> calculateDataCompleteness b" using eq by simp
  have 4: "calculateDataCompleteness b \<ge> calculateDataCompleteness a" using eq by simp
  show ?thesis
    unfolding 1 2
    by (auto simp: mergeTokenData_primary[OF 3] mergeTokenData_primary[OF 4] truthy_opt_def
        max.commute)
qed

theorem mergeTokens_order_witness:
  "toLowerCase (token_address token_c) = toLowerCase (token_address token_d) \<and>
   calculateDataCompleteness token_c = calculateDataCompleteness token_d \<and>
   (\<exists>m1 m2. mergeTokens [token_c, token_d] = [m1] \<and> mergeTokens [token_d, token_c] = [m2] \<and>
      volume_sol m1 = volume_sol m2 \<and> token_name m1 = ''Gamma'' \<and> token_name m2 = ''Delta'')"
proof -
  have key: "toLowerCase (token_address token_c) = toLowerCase (token_address token_d)"
    by code_simp
  have eq: "calculateDataCompleteness token_c = calculateDataCompleteness token_d"
    by code_simp
  have v: "token_name token_c = ''Gamma''" "token_name token_d = ''Delta''"
    by (simp_all add: token_c_def token_d_def)
  from mergeTokens_order[OF key eq] obtain m1 m2 where
    "mergeTokens [token_c, token_d] = [m1]" "mergeTokens [token_d, token_c] = [m2]"
    "volume_sol m1 = volume_sol m2" "token_name m1 = token_name token_c"
    "token_name m2 = token_name token_d"
    by blast
  then have "mergeTokens [token_c, token_d] = [m1] \<and> mergeTokens [token_d, token_c] = [m2] \<and>
      volume_sol m1 = volume_sol m2 \<and> token_name m1 = ''Gamma'' \<and> token_name m2 = ''Delta''"
    by (simp add: v)
  then show ?thesis using key eq by blast
qed


section \<open>Size limit\<close>

lemma mset_sort_insert: "mset (sort_insert cmp x ys) = add_mset x (mset ys)"
  by (induction ys) simp_all

lemma mset_array_sort: "mset (array_sort cmp xs) = mset xs"
  unfolding array_sort_def by (induction xs) (simp_all add: mset_sort_insert)

lemma set_sort_insert: "set (sort_insert cmp x ys) = insert x (set ys)"
  by (induction ys) auto

lemma sorted_sort_insert:
  assumes "sorted_wrt (\<lambda>x y. k y \<le> k x) ys"
  shows "sorted_wrt (\<lambda>x y. k y \<le> k x) (sort_insert (\<lambda>a b. k b - k a) x ys)"
  using assms by (induction ys) (auto simp: set_sort_insert)

lemma sorted_array_sort:
  "sorted_wrt (\<lambda>x y. k y \<le> (k x :: real)) (array_sort (\<lambda>a b. k b - k a) xs)"
  unfolding array_sort_def by (induction xs) (simp_all add: sorted_sort_insert)

lemma or_zero_id: "or_zero x = x"
  by (simp add: or_zero_def truthy_def)

lemma slice_prefix: "0 \<le> c \<Longrightarrow> slice xs 0 c = take (nat c) xs"
  by (simp add: slice_def Let_def min_def)

text \<open>
  C6. For a cap \<open>c \<ge> 0\<close>: a list of at most \<open>c\<close> records is returned unchanged; of a longer
  list exactly \<open>c\<close> records are returned, they and the discarded records together are the
  input, and every returned record has at least the volume of every discarded one. The
  cap is 200 when the environment does not set it.
\<close>

theorem limitTokens_cap:
  assumes c: "0 \<le> c"
  shows "(int (length toks) \<le> c \<longrightarrow> limitTokens (Some c) toks = toks) \<and>
         (c < int (length toks) \<longrightarrow>
            int (length (limitTokens (Some c) toks)) = c \<and>
            (\<exists>discarded. mset (limitTokens (Some c) toks) + mset discarded = mset toks \<and>
               (\<forall>r \<in> set (limitTokens (Some c) toks). \<forall>d \<in> set discarded.
                  volume_sol d \<le> volume_sol r))) \<and>
         MAX_AGGREGATED_TOKENS None = Some 200"
proof (intro conjI impI)
  assume "int (length toks) \<le> c"
  then show "limitTokens (Some c) toks = toks" by (simp add: limitTokens_def)
next
  assume big: "c < int (length toks)"
  let ?s = "array_sort (\<lambda>a b. volume_sol b - volume_sol a) toks"
  have lim: "limitTokens (Some c) toks = take (nat c) ?s"
    using big c by (simp add: limitTokens_def or_zero_id slice_prefix)
  have len: "length ?s = length toks"
    using mset_array_sort[of _ toks] by (metis size_mset)
  show "int (length (limitTokens (Some c) toks)) = c"
    using big c by (simp add: lim len)
  have "sorted_wrt (\<lambda>x y. volume_sol y \<le> volume_sol x) (take (nat c) ?s @ drop (nat c) ?s)"
    using sorted_array_sort[of volume_sol toks] by simp
  then have ord: "\<forall>r \<in> set (take (nat c) ?s). \<forall>d \<in> set (drop (nat c) ?s).
      volume_sol d \<le> volume_sol r"
    unfolding sorted_wrt_append by blast
  have "mset (take (nat c) ?s) + mset (drop (nat c) ?s) = mset toks"
    by (metis append_take_drop_id mset_append mset_array_sort)
  with ord show "\<exists>discarded. mset (limitTokens (Some c) toks) + mset discarded = mset toks \<and>
               (\<forall>r \<in> set (limitTokens (Some c) toks). \<forall>d \<in> set discarded.
                  volume_sol d \<le> volume_sol r)"
    unfolding lim by blast
next
  show "MAX_AGGREGATED_TOKENS None = Some 200"
    by (simp add: MAX_AGGREGATED_TOKENS_def parseInt10_def isWhiteSpace_def isDigit_def
        digit_value_def)
qed

theorem limitTokens_cap_witness:
  "(0::int) \<le> 2 \<and> 2 < int (length [mock_A, mock_B, mock_C]) \<and>
   limitTokens (Some 2) [mock_A, mock_B, mock_C] = [mock_C, mock_B] \<and>
   int (length (limitTokens (Some 2) [mock_A, mock_B, mock_C])) = 2"
proof -
  have h: "(0::int) \<le> 2" by simp
  have l: "2 < int (length [mock_A, mock_B, mock_C])" by simp
  have e: "limitTokens (Some 2) [mock_A, mock_B, mock_C] = [mock_C, mock_B]" by code_simp
  from limitTokens_cap[OF h, of "[mock_A, mock_B, mock_C]"] l
  have "int (length (limitTokens (Some 2) [mock_A, mock_B, mock_C])) = 2" by blast
  with h l e show ?thesis by blast
qed

section \<open>Fetch orchestration\<close>

lemma aggregatedTokens_successes:
  "aggregatedTokens results = concat (map projr (filter (\<lambda>r. \<not> isl r) results))"
  unfolding aggregatedTokens_def by (induction results) (auto split: sum.splits)

lemma aggregatedTokens_all_failed:
  "\<forall>r \<in> set results. isl r \<Longrightarrow> aggregatedTokens results = []"
  unfolding aggregatedTokens_def by (induction results) (auto split: sum.splits)

lemma aggregateTokens_never_rejects:
  "\<exists>v st'. aggregateTokens cap results now reply now' reply' st = (Inr v, st')"
  by (auto simp: aggregateTokens_def getOrSet_def aggregateTokens_fetch_def Let_def
      split: prod.splits option.splits)

lemma aggregateTokens_miss:
  assumes "cache_get now reply (generateKey ''tokens'' [''aggregated'']) st = (None, st1)"
  shows "aggregateTokens cap results now reply now' reply' st =
     (Inr (if concat (map projr (filter (\<lambda>r. \<not> isl r) results)) = [] then []
           else limitTokens cap
                  (mergeTokens (concat (map projr (filter (\<lambda>r. \<not> isl r) results))))),
      cache_set now' reply' (generateKey ''tokens'' [''aggregated''])
        (if concat (map projr (filter (\<lambda>r. \<not> isl r) results)) = [] then []
         else limitTokens cap
                (mergeTokens (concat (map projr (filter (\<lambda>r. \<not> isl r) results)))))
        (Some 30) st1)"
  using assms
  by (simp add: aggregateTokens_def getOrSet_def aggregateTokens_fetch_def Let_def
      aggregatedTokens_successes[symmetric])

lemma aggregateTokens_hit:
  assumes "cache_get now reply (generateKey ''tokens'' [''aggregated'']) st = (Some cached, st1)"
  shows "aggregateTokens cap results now reply now' reply' st = (Inr cached, st1)"
  using assms by (simp add: aggregateTokens_def getOrSet_def)

lemma aggregateTokens_failed_provider:
  "aggregateTokens cap (before @ Inl reason # after) now reply now' reply' st =
   aggregateTokens cap (before @ after) now reply now' reply' st"
  by (simp add: aggregateTokens_def aggregateTokens_fetch_def aggregatedTokens_def)

text \<open>
  C7, as stated, fails: what \<open>aggregateTokens\<close> returns is not the concatenation of the
  successful batches. Two providers that each deliver one record of the same identity
  give a concatenation of two records and a result of one merged record; and when the
  cache holds an aggregate, that aggregate is returned whatever the providers deliver.
\<close>

theorem aggregateTokens_concatenation_counterexample:
  "aggregatedTokens [Inr [token_a], Inr [token_b] :: string + Token list] = [token_a, token_b] \<and>
   fst (aggregateTokens (Some 200) [Inr [token_a], Inr [token_b] :: string + Token list]
          2000 GetNull 2500 WriteOk (new_CacheService False 30)) =
     Inr [token_b \<lparr> source := Some ''b,a'', volume_sol := 500, price_sol := 1 \<rparr>] \<and>
   fst (aggregateTokens (Some 200) [Inr [mock_A], Inr [mock_B] :: string + Token list]
          2000 GetNull 2500 WriteOk warm_cache) =
     Inr [mock_C]"
  by code_simp

text \<open>
  C7, amended. \<open>aggregateTokens\<close> always returns normally. When the cache lookup misses,
  the result is the concatenation of the batches of the providers that succeeded, merged
  to one record per identity and limited to the cap (the empty list when the
  concatenation is empty, so also when every provider failed), and this result is stored
  in the cache. When the lookup hits, the result is the cached aggregate. A provider whose
  fetch fails contributes nothing and does not abort the others: leaving its outcome out
  of the list changes neither the result nor the cache.
\<close>

theorem aggregateTokens_settles_all:
  "(cache_get now reply (generateKey ''tokens'' [''aggregated'']) st = (None, st1) \<longrightarrow>
      aggregateTokens cap results now reply now' reply' st =
        (Inr (if concat (map projr (filter (\<lambda>r. \<not> isl r) results)) = [] then []
              else limitTokens cap
                     (mergeTokens (concat (map projr (filter (\<lambda>r. \<not> isl r) results))))),
         cache_set now' reply' (generateKey ''tokens'' [''aggregated''])
           (if concat (map projr (filter (\<lambda>r. \<not> isl r) results)) = [] then []
            else limitTokens cap
                   (mergeTokens (concat (map projr (filter (\<lambda>r. \<not> isl r) results)))))
           (Some 30) st1)) \<and>
   (cache_get now reply (generateKey ''tokens'' [''aggregated'']) st = (None, st1) \<and>
    (\<forall>r \<in> set results. isl r) \<longrightarrow>
      fst (aggregateTokens cap results now reply now' reply' st) = Inr []) \<and>
   (cache_get now reply (generateKey ''tokens'' [''aggregated'']) st = (Some cached, st1) \<longrightarrow>
      aggregateTokens cap results now reply now' reply' st = (Inr cached, st1)) \<and>
   aggregateTokens cap (before @ Inl reason # after) now reply now' reply' st =
     aggregateTokens cap (before @ after) now reply now' reply' st \<and>
   (\<exists>v st'. aggregateTokens cap results now reply now' reply' st = (Inr v, st'))"
proof (intro conjI impI)
  assume "cache_get now reply (generateKey ''tokens'' [''aggregated'']) st = (None, st1)"
  then show "aggregateTokens cap results now reply now' reply' st =
        (Inr (if concat (map projr (filter (\<lambda>r. \<not> isl r) results)) = [] then []
              else limitTokens cap
                     (mergeTokens (concat (map projr (filter (\<lambda>r. \<not> isl r) results))))),
         cache_set now' reply' (generateKey ''tokens'' [''aggregated''])
           (if concat (map projr (filter (\<lambda>r. \<not> isl r) results)) = [] then []
            else limitTokens cap
                   (mergeTokens (concat (map projr (filter (\<lambda>r. \<not> isl r) results)))))
           (Some 30) st1)"
    by (rule aggregateTokens_miss)
next
  assume h: "cache_get now reply (generateKey ''tokens'' [''aggregated'']) st = (None, st1) \<and>
    (\<forall>r \<in> set results. isl r)"
  then have "filter (\<lambda>r. \<not> isl r) results = []" by (simp add: filter_empty_conv)
  with h show "fst (aggregateTokens cap results now reply now' reply' st) = Inr []"
    by (simp add: aggregateTokens_miss[of now reply st st1])
next
  assume "cache_get now reply (generateKey ''tokens'' [''aggregated'']) st = (Some cached, st1)"
  then show "aggregateTokens cap results now reply now' reply' st = (Inr cached, st1)"
    by (rule aggregateTokens_hit)
next
  show "aggregateTokens cap (before @ Inl reason # after) now reply now' reply' st =
     aggregateTokens cap (before @ after) now reply now' reply' st"
    by (rule aggregateTokens_failed_provider)
next
  show "\<exists>v st'. aggregateTokens cap results now reply now' reply' st = (Inr v, st')"
    by (rule aggregateTokens_never_rejects)
qed

theorem aggregateTokens_settles_all_witness:
  "fst (aggregateTokens (Some 200) (sources True (Inl ''timeout'') (Inr [mock_A, mock_B]))
          1000 GetNull 1500 WriteOk (new_CacheService False 30)) =
     (Inr [mock_A, mock_B] :: string + Token list) \<and>
   fst (aggregateTokens (Some 200) (sources True (Inl ''timeout'') (Inl ''HTTP 500''))
          1000 GetNull 1500 WriteOk (new_CacheService False 30)) =
     (Inr [] :: string + Token list)"
proof -
  let ?st = "new_CacheService False 30 :: Token list CacheService"
  let ?ok = "sources True (Inl ''timeout'') (Inr [mock_A, mock_B]) :: (string + Token list) list"
  let ?ko = "sources True (Inl ''timeout'') (Inl ''HTTP 500'') :: (string + Token list) list"
  have miss: "cache_get 1000 GetNull (generateKey ''tokens'' [''aggregated'']) ?st = (None, ?st)"
    by (simp add: cache_get_def getFromMemory_def new_CacheService_def)
  have failed: "\<forall>r \<in> set ?ko. isl r" by (simp add: sources_def)
  have succ: "concat (map projr (filter (\<lambda>r. \<not> isl r) ?ok)) = [mock_A, mock_B]"
    by (simp add: sources_def)
  have lim: "limitTokens (Some 200) (mergeTokens [mock_A, mock_B]) = [mock_A, mock_B]"
    by code_simp
  from aggregateTokens_settles_all[of 1000 GetNull ?st ?st "Some 200" ?ok 1500 WriteOk "[]"
      "[]" "''timeout''" "[]"] miss
  have 1: "fst (aggregateTokens (Some 200) ?ok 1000 GetNull 1500 WriteOk ?st) = Inr [mock_A, mock_B]"
    by (simp add: succ lim)
  from aggregateTokens_settles_all[of 1000 GetNull ?st ?st "Some 200" ?ko 1500 WriteOk "[]"
      "[]" "''timeout''" "[]"] miss failed
  have 2: "fst (aggregateTokens (Some 200) ?ko 1000 GetNull 1500 WriteOk ?st) = Inr []"
    by simp
  from 1 2 show ?thesis by simp
qed

section \<open>Pagination\<close>

lemma slice_window:
  "0 \<le> s \<Longrightarrow> 0 < l \<Longrightarrow> slice xs s (s + l) = take (nat l) (drop (nat s) xs)"
  by (auto simp: slice_def Let_def min_def)

lemma parseInt10_not_a_number: "parseInt10 ''not-a-number'' = None"
  by (simp add: parseInt10_def isWhiteSpace_def isDigit_def)

lemma parseInt10_zero: "parseInt10 ''0'' = Some 0"
  by (simp add: parseInt10_def isWhiteSpace_def isDigit_def digit_value_def)

lemma isDigit_digit: "d < 10 \<Longrightarrow> isDigit (char_of (48 + d :: nat))"
  by (simp add: isDigit_def)

lemma digit_value_digit: "d < 10 \<Longrightarrow> digit_value (char_of (48 + d :: nat)) = int d"
  by (simp add: digit_value_def)

lemma toString_nat_small: "n < 10 \<Longrightarrow> toString_nat n = [char_of (48 + n)]"
  by (simp add: toString_nat.simps[of n])

lemma toString_nat_large:
  "\<not> n < 10 \<Longrightarrow> toString_nat n = toString_nat (n div 10) @ [char_of (48 + n mod 10)]"
  by (simp add: toString_nat.simps[of n])

lemma toString_nat_digits: "\<forall>c \<in> set (toString_nat n). isDigit c"
proof (induction n rule: toString_nat.induct)
  case (1 n)
  show ?case
  proof (cases "n < 10")
    case True
    then show ?thesis by (simp add: toString_nat_small isDigit_digit)
  next
    case False
    then show ?thesis using 1 by (simp add: toString_nat_large isDigit_digit)
  qed
qed

lemma toString_nat_nonempty: "toString_nat n \<noteq> []"
  by (cases "n < 10") (simp_all add: toString_nat_small toString_nat_large)

lemma toString_nat_value:
  "foldl (\<lambda>acc c. 10 * acc + digit_value c) 0 (toString_nat n) = int n"
proof (induction n rule: toString_nat.induct)
  case (1 n)
  show ?case
  proof (cases "n < 10")
    case True
    then show ?thesis by (simp add: toString_nat_small digit_value_digit)
  next
    case False
    then have "foldl (\<lambda>acc c. 10 * acc + digit_value c) 0 (toString_nat n) =
        10 * int (n div 10) + int (n mod 10)"
      using 1 by (simp add: toString_nat_large digit_value_digit)
    also have "\<dots> = int n" by presburger
    finally show ?thesis .
  qed
qed

lemma digit_not_space_or_sign:
  "isDigit c \<Longrightarrow> \<not> isWhiteSpace c \<and> c \<noteq> CHR ''-'' \<and> c \<noteq> CHR ''+''"
  by (auto simp: isDigit_def isWhiteSpace_def)

lemma parseInt10_toString_nat: "parseInt10 (toString_nat n) = Some (int n)"
proof -
  obtain d ds where s: "toString_nat n = d # ds"
    using toString_nat_nonempty[of n] by (cases "toString_nat n") auto
  have all: "\<forall>c \<in> set (d # ds). isDigit c" using toString_nat_digits[of n] s by simp
  then have d: "\<not> isWhiteSpace d" "d \<noteq> CHR ''-''" "d \<noteq> CHR ''+''"
    using digit_not_space_or_sign[of d] by simp_all
  have tw: "takeWhile isDigit (d # ds) = d # ds" using all by (simp add: takeWhile_eq_all_conv)
  have "parseInt10 (d # ds) = Some (foldl (\<lambda>acc c. 10 * acc + digit_value c) 0 (d # ds))"
    using d tw unfolding parseInt10_def Let_def by simp
  then show ?thesis using toString_nat_value[of n] s by simp
qed

text \<open>The decimal form of an offset is read back by \<open>parseInt\<close> as that offset.\<close>

lemma parseInt10_toString_int: "0 \<le> n \<Longrightarrow> parseInt10 (toString_int n) = Some n"
  using parseInt10_toString_nat[of "nat n"] by (simp add: toString_int_def)

text \<open>
  C8, as stated, fails for a limit of 0, which is taken as absent: the page of a
  one-record list then holds one record, more than the limit. With the limit \<open>-1\<close> the page
  of a three-record list holds two records and the next cursor is \<open>-1\<close>.
\<close>

theorem paginateTokens_limit_counterexample:
  "paginateTokens [mock_A] \<lparr> limit = Some 0, cursor = None \<rparr> =
     \<lparr> tokens = [mock_A], next_cursor = None \<rparr> \<and>
   paginateTokens [mock_A, mock_B, mock_C] \<lparr> limit = Some (- 1), cursor = None \<rparr> =
     \<lparr> tokens = [mock_A, mock_B], next_cursor = Some ''-1'' \<rparr>"
  by code_simp

text \<open>
  C8, amended. \<open>paginateTokens\<close> has no error result. For every record list and every
  pagination spec whose limit is absent or not negative: the offset is 0 when the cursor
  is absent, when \<open>parseInt\<close> reads no number from it, and when it reads a negative number,
  and is the number read otherwise (so the cursor \<open>not-a-number\<close> gives the same result as
  the cursor \<open>0\<close>); the limit is 20 when it is absent or 0; the page is the records from
  the offset on, at most limit many; and the next cursor is present exactly when records
  remain beyond the page, and is then the decimal form of offset plus limit, which
  \<open>parseInt\<close> reads back as that offset.
\<close>

theorem paginateTokens_page:
  assumes lim: "\<forall>l. limit options = Some l \<longrightarrow> 0 \<le> l"
  shows "\<exists>start lim.
           tokens (paginateTokens toks options) = take (nat lim) (drop (nat start) toks) \<and>
           length (tokens (paginateTokens toks options)) \<le> nat lim \<and>
           next_cursor (paginateTokens toks options) =
             (if drop (nat (start + lim)) toks \<noteq> [] then Some (toString_int (start + lim))
              else None) \<and>
           parseInt10 (toString_int (start + lim)) = Some (start + lim) \<and>
           (limit options = None \<or> limit options = Some 0 \<longrightarrow> lim = 20) \<and>
           (\<forall>l. limit options = Some l \<and> 0 < l \<longrightarrow> lim = l) \<and>
           (cursor options = None \<longrightarrow> start = 0) \<and>
           (\<forall>c. cursor options = Some c \<and> parseInt10 c = None \<longrightarrow> start = 0) \<and>
           (\<forall>c n. cursor options = Some c \<and> parseInt10 c = Some n \<and> n < 0 \<longrightarrow> start = 0) \<and>
           (\<forall>c n. cursor options = Some c \<and> parseInt10 c = Some n \<and> 0 \<le> n \<longrightarrow> start = n) \<and>
           paginateTokens toks (options\<lparr>cursor := Some ''not-a-number''\<rparr>) =
             paginateTokens toks (options\<lparr>cursor := Some ''0''\<rparr>)"
proof -
  define l where "l = (case limit options of None \<Rightarrow> 20 | Some l \<Rightarrow> if l = 0 then 20 else l)"
  define s where "s = (case cursor options of None \<Rightarrow> 0
             | Some c \<Rightarrow> if c = [] then 0
                 else (case parseInt10 c of None \<Rightarrow> 0 | Some n \<Rightarrow> if n < 0 then 0 else n))"
  have lpos: "0 < l" using lim by (auto simp: l_def split: option.splits)
  have spos: "0 \<le> s" by (auto simp: s_def split: option.splits)
  have toks: "tokens (paginateTokens toks options) = take (nat l) (drop (nat s) toks)"
    using slice_window[OF spos lpos] by (simp add: paginateTokens_def l_def s_def Let_def)
  have more: "(s + l < int (length toks)) = (drop (nat (s + l)) toks \<noteq> [])"
    using lpos spos by auto
  have nxt: "next_cursor (paginateTokens toks options) =
      (if drop (nat (s + l)) toks \<noteq> [] then Some (toString_int (s + l)) else None)"
    unfolding more[symmetric] by (simp add: paginateTokens_def l_def s_def Let_def)
  have empty: "parseInt10 [] = None" by (simp add: parseInt10_def)
  have c0: "cursor options = None \<longrightarrow> s = 0" by (simp add: s_def)
  have c1: "\<forall>c. cursor options = Some c \<and> parseInt10 c = None \<longrightarrow> s = 0"
    by (simp add: s_def)
  have c2: "\<forall>c n. cursor options = Some c \<and> parseInt10 c = Some n \<and> n < 0 \<longrightarrow> s = 0"
    by (auto simp: s_def)
  have c3: "\<forall>c n. cursor options = Some c \<and> parseInt10 c = Some n \<and> 0 \<le> n \<longrightarrow> s = n"
    using empty by (auto simp: s_def)
  have l0: "limit options = None \<or> limit options = Some 0 \<longrightarrow> l = 20" by (auto simp: l_def)
  have l1: "\<forall>k. limit options = Some k \<and> 0 < k \<longrightarrow> l = k" by (auto simp: l_def)
  have same: "paginateTokens toks (options\<lparr>cursor := Some ''not-a-number''\<rparr>) =
             paginateTokens toks (options\<lparr>cursor := Some ''0''\<rparr>)"
    by (simp add: paginateTokens_def parseInt10_not_a_number parseInt10_zero)
  have len: "length (tokens (paginateTokens toks options)) \<le> nat l" unfolding toks by simp
  have reread: "parseInt10 (toString_int (s + l)) = Some (s + l)"
    using lpos spos by (simp add: parseInt10_toString_int)
  show ?thesis
    by (rule exI[of _ s], rule exI[of _ l])
       (intro conjI toks len nxt reread l0 l1 c0 c1 c2 c3 same)
qed

theorem paginateTokens_page_witness:
  "paginateTokens [mock_A, mock_B, mock_C] \<lparr> limit = Some 2, cursor = Some ''invalid'' \<rparr> =
     \<lparr> tokens = [mock_A, mock_B], next_cursor = Some ''2'' \<rparr> \<and>
   length (tokens (paginateTokens [mock_A, mock_B, mock_C]
                     \<lparr> limit = Some 2, cursor = Some ''invalid'' \<rparr>)) \<le> 2"
proof -
  have h: "\<forall>l. limit \<lparr> limit = Some 2, cursor = Some ''invalid'' \<rparr> = Some l \<longrightarrow> 0 \<le> l"
    by simp
  have e: "paginateTokens [mock_A, mock_B, mock_C] \<lparr> limit = Some 2, cursor = Some ''invalid'' \<rparr> =
     \<lparr> tokens = [mock_A, mock_B], next_cursor = Some ''2'' \<rparr>"
    by code_simp
  from paginateTokens_page[OF h, of "[mock_A, mock_B, mock_C]"] obtain lim where
    "length (tokens (paginateTokens [mock_A, mock_B, mock_C]
        \<lparr> limit = Some 2, cursor = Some ''invalid'' \<rparr>)) \<le> nat lim"
    "\<forall>l. limit \<lparr> limit = Some 2, cursor = Some ''invalid'' \<rparr> = Some l \<and> 0 < l \<longrightarrow> lim = l"
    by blast
  then have "length (tokens (paginateTokens [mock_A, mock_B, mock_C]
        \<lparr> limit = Some 2, cursor = Some ''invalid'' \<rparr>)) \<le> 2"
    by simp
  with e show ?thesis by blast
qed

section \<open>Retry\<close>

text \<open>
  An operation that fails with the same Axios error at every invocation is invoked until
  the attempts are used up, whatever the status of the error.
\<close>

lemma retry_loop_axios_error:
  "\<forall>i. fn i = Inl (AxiosError st) \<Longrightarrow> attempt \<le> maxR \<Longrightarrow>
   retry_loop fn maxR codes attempt lastError calls =
     (Inl (Some (AxiosError st)), calls + nat (maxR - attempt) + 1)"
proof (induction fn maxR codes attempt lastError calls rule: retry_loop.induct)
  case (1 fn maxR codes attempt lastError calls)
  note fails = 1(2) and le = 1(3)
  have ax: "isAxiosError (AxiosError st)" by (simp add: isAxiosError_def)
  show ?case
  proof (cases "attempt = maxR")
    case True
    then show ?thesis using fails by (subst retry_loop.simps) simp
  next
    case False
    with le have lt: "attempt + 1 \<le> maxR" by simp
    have "retry_loop fn maxR codes attempt lastError calls =
        retry_loop fn maxR codes (attempt + 1) (Some (AxiosError st)) (calls + 1)"
      using fails False le ax by (subst retry_loop.simps) simp
    also have "\<dots> = (Inl (Some (AxiosError st)), calls + 1 + nat (maxR - (attempt + 1)) + 1)"
      by (rule 1(1)[of "AxiosError st"]) (use fails le False ax lt in simp_all)
    finally show ?thesis using lt by (simp add: nat_diff_distrib')
  qed
qed

text \<open>An error that is not an Axios error is thrown at once.\<close>

lemma retry_loop_other_error:
  assumes "fn calls = Inl (OtherError msg)" and "attempt \<le> maxR"
  shows "retry_loop fn maxR codes attempt lastError calls =
         (Inl (Some (OtherError msg)), calls + 1)"
  using assms by (subst retry_loop.simps) (simp add: isAxiosError_def isRetryable_def)

text \<open>
  C3. Under the default configuration an operation that always fails with an Axios error
  is invoked four times before the error is thrown, whatever the status of the error: so
  is one with status 404, which is not in the list of retryable status codes. Only an
  error that is not an Axios error is thrown after the first invocation.
\<close>

theorem retryWithBackoff_retries_status_404:
  "retryWithBackoff (\<lambda>i. Inl (AxiosError (Some 404)) :: error + 'a) default_config =
     (Inl (Some (AxiosError (Some 404))), 4) \<and>
   \<not> isRetryable default_retryableStatusCodes (AxiosError (Some 404)) \<and>
   retryWithBackoff (\<lambda>i. Inl (AxiosError st) :: error + 'a) default_config =
     (Inl (Some (AxiosError st)), 4) \<and>
   retryWithBackoff (\<lambda>i. Inl (OtherError msg) :: error + 'a) default_config =
     (Inl (Some (OtherError msg)), 1)"
proof (intro conjI)
  have all: "retryWithBackoff (\<lambda>i. Inl (AxiosError s) :: error + 'a) default_config =
      (Inl (Some (AxiosError s)), 4)" for s
    using retry_loop_axios_error[of "\<lambda>i. Inl (AxiosError s) :: error + 'a" s 0 3
        default_retryableStatusCodes None 0]
    by (simp add: retryWithBackoff_def default_config_def default_maxRetries_def)
  show "retryWithBackoff (\<lambda>i. Inl (AxiosError (Some 404)) :: error + 'a) default_config =
     (Inl (Some (AxiosError (Some 404))), 4)"
    by (rule all)
  show "retryWithBackoff (\<lambda>i. Inl (AxiosError st) :: error + 'a) default_config =
     (Inl (Some (AxiosError st)), 4)"
    by (rule all)
  show "\<not> isRetryable default_retryableStatusCodes (AxiosError (Some 404))"
    by (simp add: isRetryable_def default_retryableStatusCodes_def)
  show "retryWithBackoff (\<lambda>i. Inl (OtherError msg) :: error + 'a) default_config =
     (Inl (Some (OtherError msg)), 1)"
    using retry_loop_other_error[of "\<lambda>i. Inl (OtherError msg) :: error + 'a" 0 msg 0 3
        default_retryableStatusCodes None]
    by (simp add: retryWithBackoff_def default_config_def default_maxRetries_def)
qed

section \<open>Filter\<close>

lemma token_property_1h: "token_property t (changeField TP_1h) = None"
  by (simp add: token_property_def changeField_def)

lemma token_property_24h: "token_property t (changeField TP_24h) = None"
  by (simp add: token_property_def changeField_def)

lemma token_property_7d:
  "token_property t (changeField TP_7d) = map_option Num (price_7d_change t)"
  by (simp add: token_property_def changeField_def)

text \<open>
  Of the three periods only \<open>7d\<close> names a field of the record; the filters for \<open>1h\<close> and
  \<open>24h\<close> keep nothing.
\<close>

lemma filterTokens_timePeriod:
  "filterTokens toks
     \<lparr> timePeriod = Some tp, minVolume = None, minLiquidity = None, fo_protocol = None \<rparr> =
   (case tp of TP_7d \<Rightarrow> filter (\<lambda>t. price_7d_change t \<noteq> None) toks | _ \<Rightarrow> [])"
  by (cases tp)
     (simp_all add: filterTokens_def token_property_1h token_property_24h token_property_7d)

text \<open>The other three filters do what is claimed of them.\<close>

lemma filterTokens_minVolume:
  "filterTokens toks
     \<lparr> timePeriod = None, minVolume = Some v, minLiquidity = None, fo_protocol = None \<rparr> =
   filter (\<lambda>t. v \<le> volume_sol t) toks"
  by (simp add: filterTokens_def)

lemma filterTokens_minLiquidity:
  "filterTokens toks
     \<lparr> timePeriod = None, minVolume = None, minLiquidity = Some l, fo_protocol = None \<rparr> =
   filter (\<lambda>t. l \<le> liquidity_sol t) toks"
  by (simp add: filterTokens_def)

lemma startsWith_iff: "startsWith s p = (\<exists>r. s = p @ r)"
  by (induction s p rule: startsWith.induct) auto

lemma str_includes_iff: "str_includes s sub = (\<exists>pre post. s = pre @ sub @ post)"
proof (induction s)
  case Nil
  then show ?case by auto
next
  case (Cons c cs)
  show ?case
  proof
    assume "str_includes (c # cs) sub"
    then consider "startsWith (c # cs) sub" | "str_includes cs sub" by auto
    then show "\<exists>pre post. c # cs = pre @ sub @ post"
    proof cases
      case 1
      then obtain r where "c # cs = sub @ r" by (auto simp: startsWith_iff)
      then have "c # cs = [] @ sub @ r" by simp
      then show ?thesis by blast
    next
      case 2
      with Cons obtain pre post where "cs = pre @ sub @ post" by blast
      then have "c # cs = (c # pre) @ sub @ post" by simp
      then show ?thesis by blast
    qed
  next
    assume "\<exists>pre post. c # cs = pre @ sub @ post"
    then obtain pre post where e: "c # cs = pre @ sub @ post" by blast
    show "str_includes (c # cs) sub"
    proof (cases pre)
      case Nil
      with e have "startsWith (c # cs) sub" by (auto simp: startsWith_iff)
      then show ?thesis by simp
    next
      case (Cons p ps)
      with e have "cs = ps @ sub @ post" by simp
      then have "str_includes cs sub" using Cons.IH by blast
      then show ?thesis by simp
    qed
  qed
qed

lemma filterTokens_protocol:
  "p \<noteq> [] \<Longrightarrow>
   filterTokens toks
     \<lparr> timePeriod = None, minVolume = None, minLiquidity = None, fo_protocol = Some p \<rparr> =
   filter (\<lambda>t. \<exists>pre post. toLowerCase (protocol t) = pre @ toLowerCase p @ post) toks"
  by (simp add: filterTokens_def str_includes_iff)

text \<open>
  C9. The time-period filter for \<open>1h\<close> reads the property \<open>price_1h_change\<close>, which no record
  has (the field is \<open>price_1hr_change\<close>): it returns the empty list for every input. It
  removes the three records of the repository's test, which all have a one-hour change,
  and a record whose one-hour change is 0.
\<close>

theorem filterTokens_timePeriod_1h_empty:
  "changeField TP_1h = ''price_1h_change'' \<and>
   filterTokens toks only_timePeriod_1h = [] \<and>
   filterTokens [mock_A, mock_B, mock_C] only_timePeriod_1h = [] \<and>
   price_1hr_change token_flat_1h = Some 0 \<and>
   filterTokens [token_flat_1h] only_timePeriod_1h = []"
proof -
  have "filterTokens ts only_timePeriod_1h = []" for ts
    using filterTokens_timePeriod[of ts TP_1h] by (simp add: only_timePeriod_1h_def)
  then show ?thesis by (simp add: changeField_def token_flat_1h_def)
qed

section \<open>Sort\<close>

lemma sort_insert_no_order: "sort_insert (\<lambda>a b. 0) x ys = x # ys"
  by (cases ys) simp_all

lemma array_sort_no_order: "array_sort (\<lambda>a b. 0) xs = xs"
  unfolding array_sort_def by (induction xs) (simp_all add: sort_insert_no_order)

text \<open>An unrecognised sort field leaves the list as it is.\<close>

lemma sortTokens_unknown_field:
  assumes "field options \<notin>
    {''volume'', ''price_change'', ''market_cap'', ''liquidity'', ''transaction_count''}"
  shows "sortTokens toks options = toks"
proof -
  have "sort_compare options = (\<lambda>a b. 0)"
    using assms by (simp add: sort_compare_def sort_value_def fun_eq_iff)
  then show ?thesis by (simp add: sortTokens_def array_sort_no_order)
qed

text \<open>
  C10. A record whose 24-hour change is exactly 0 is sorted by its one-hour change: with
  a one-hour change of 50 it comes before a record whose 24-hour change is 15 in
  descending order.
\<close>

theorem sortTokens_zero_change_falls_through:
  "price_24hr_change token_flat_24h = Some 0 \<and>
   price_change_value token_flat_24h = 50 \<and>
   price_change_value mock_B = 15 \<and>
   sortTokens [mock_B, token_flat_24h] \<lparr> field = ''price_change'', order = ''desc'' \<rparr> =
     [token_flat_24h, mock_B]"
  by code_simp

section \<open>Concurrent callers of the cache\<close>

lemma filter_missed_update:
  "i < length cs \<Longrightarrow>
   length (filter missed (cs[i := c])) + (if missed (cs ! i) then 1 else 0) =
   length (filter missed cs) + (if missed c then 1 else 0)"
proof (induction cs arbitrary: i)
  case Nil
  then show ?case by simp
next
  case (Cons a cs)
  then show ?case by (cases i) auto
qed

lemma step_fetchCalls:
  assumes inv: "fetchCalls s = length (filter missed (callers s))"
  shows "fetchCalls (getOrSet_step key ttl s ev) =
         length (filter missed (callers (getOrSet_step key ttl s ev)))"
proof (cases ev)
  case (Call i now reply)
  show ?thesis
  proof (cases "i < length (callers s) \<and> callers s ! i = NotCalled")
    case True
    then show ?thesis
      using inv Call filter_missed_update[of i "callers s" AwaitingFetch]
        filter_missed_update[of i "callers s" "ReturnedCached v" for v]
      by (auto split: prod.splits option.splits)
  next
    case False
    then show ?thesis using inv Call by auto
  qed
next
  case (FetchSettled i now outcome reply)
  show ?thesis
  proof (cases "i < length (callers s) \<and> callers s ! i = AwaitingFetch")
    case True
    then show ?thesis
      using inv FetchSettled filter_missed_update[of i "callers s" "Threw e" for e]
        filter_missed_update[of i "callers s" "ReturnedFetched v" for v]
      by (auto split: sum.splits)
  next
    case False
    then show ?thesis using inv FetchSettled by auto
  qed
next
  case (RedisConnection up)
  then show ?thesis using inv by simp
qed

lemma run_fetchCalls:
  "fetchCalls s = length (filter missed (callers s)) \<Longrightarrow>
   fetchCalls (getOrSet_run key ttl evs s) =
   length (filter missed (callers (getOrSet_run key ttl evs s)))"
  unfolding getOrSet_run_def
  by (induction evs arbitrary: s) (simp_all add: step_fetchCalls)

lemma cache_get_miss:
  assumes "map_of (inMemoryCache c) key = None" and "\<not> is_data reply"
  shows "\<exists>c'. cache_get now reply key c = (None, c') \<and> map_of (inMemoryCache c') key = None"
  using assms by (cases reply) (auto simp: cache_get_def getFromMemory_def)

lemma cache_get_hit:
  assumes "map_of (inMemoryCache c) key = Some entry" and "now \<le> expiresAt entry"
    and "\<not> is_data reply"
  shows "\<exists>c'. cache_get now reply key c = (Some (entry_value entry), c')"
  using assms by (cases reply) (auto simp: cache_get_def getFromMemory_def)

lemma setInMemory_stores:
  assumes "0 \<le> ttl"
  shows "map_of (inMemoryCache (setInMemory now key v ttl st)) key =
           Some \<lparr> entry_value = v, expiresAt = now + ttl * 1000 \<rparr>"
proof -
  let ?e = "\<lparr> entry_value = v, expiresAt = now + ttl * 1000 \<rparr>"
  let ?m = "AList.update key ?e (inMemoryCache st)"
  have 1: "map_of ?m key = Some ?e" by (simp add: update_conv')
  have 2: "map_of (filter (\<lambda>(k, entry). \<not> now > expiresAt entry) ?m) key = Some ?e"
    using 1 assms by (simp add: map_of_filter_in)
  show ?thesis using 1 2 by (simp add: setInMemory_def Let_def cleanupMemoryCache_def)
qed

lemma cache_set_stores:
  assumes "0 \<le> cacheTTL ttl st"
  shows "map_of (inMemoryCache (cache_set now reply key v ttl st)) key =
           Some \<lparr> entry_value = v, expiresAt = now + cacheTTL ttl st * 1000 \<rparr>"
  using setInMemory_stores[OF assms, of now key v]
  by (cases reply) (auto simp: cache_set_def Let_def)

lemma replicate_update_next:
  assumes "k < n"
  shows "(replicate k a @ replicate (n - k) b)[k := a] =
         replicate (Suc k) a @ replicate (n - Suc k) b"
proof -
  from assms obtain m where m: "n - k = Suc m" by (metis Suc_diff_Suc)
  then have "n - Suc k = m" by simp
  then show ?thesis using m by (simp add: list_update_append replicate_append_same)
qed

lemma calls_all_miss_prefix:
  fixes c :: "'v CacheService" and r :: "nat \<Rightarrow> 'v redis_get"
  assumes mem: "map_of (inMemoryCache c) key = None"
    and rep: "\<forall>i<n. \<not> is_data (r i)"
  shows "k \<le> n \<Longrightarrow>
     \<exists>c'. getOrSet_run key ttl (map (\<lambda>i. Call i (t i) (r i)) [0..<k])
            (init c n :: ('e, 'v) system) =
            \<lparr> cache = c', fetchCalls = k,
              callers = replicate k AwaitingFetch @ replicate (n - k) NotCalled \<rparr> \<and>
          map_of (inMemoryCache c') key = None"
proof (induction k)
  case 0
  then show ?case using mem by (simp add: getOrSet_run_def init_def)
next
  case (Suc k)
  then have kn: "k < n" by simp
  from Suc.IH[OF less_imp_le[OF kn]] obtain c' where
    run: "getOrSet_run key ttl (map (\<lambda>i. Call i (t i) (r i)) [0..<k])
            (init c n :: ('e, 'v) system) =
            \<lparr> cache = c', fetchCalls = k,
              callers = replicate k AwaitingFetch @ replicate (n - k) NotCalled \<rparr>"
    and mem': "map_of (inMemoryCache c') key = None"
    by blast
  from rep kn have "\<not> is_data (r k)" by simp
  from cache_get_miss[OF mem' this, of "t k"] obtain c'' where
    get: "cache_get (t k) (r k) key c' = (None, c'')"
    and mem'': "map_of (inMemoryCache c'') key = None"
    by blast
  have nth: "(replicate k AwaitingFetch @ replicate (n - k) NotCalled) ! k =
      (NotCalled :: ('e, 'v) caller)"
    using kn by (simp add: nth_append)
  have "getOrSet_run key ttl (map (\<lambda>i. Call i (t i) (r i)) [0..<Suc k])
          (init c n :: ('e, 'v) system) =
      getOrSet_step key ttl
        (getOrSet_run key ttl (map (\<lambda>i. Call i (t i) (r i)) [0..<k]) (init c n))
        (Call k (t k) (r k))"
    by (simp add: getOrSet_run_def)
  also have "\<dots> = \<lparr> cache = c'', fetchCalls = Suc k,
              callers = replicate (Suc k) AwaitingFetch @ replicate (n - Suc k) NotCalled \<rparr>"
    unfolding run
    using kn nth get
      replicate_update_next[OF kn, of "AwaitingFetch :: ('e, 'v) caller" NotCalled]
    by simp
  finally show ?case using mem'' by blast
qed

lemma calls_all_miss:
  fixes c :: "'v CacheService" and r :: "nat \<Rightarrow> 'v redis_get"
  assumes mem: "map_of (inMemoryCache c) key = None"
    and rep: "\<forall>i<n. \<not> is_data (r i)"
  shows "fetchCalls (getOrSet_run key ttl (map (\<lambda>i. Call i (t i) (r i)) [0..<n])
           (init c n :: ('e, 'v) system)) = n \<and>
         callers (getOrSet_run key ttl (map (\<lambda>i. Call i (t i) (r i)) [0..<n])
           (init c n :: ('e, 'v) system)) = replicate n AwaitingFetch"
proof -
  from calls_all_miss_prefix[OF mem rep order_refl, where ttl = ttl and t = t] obtain c' where
    "getOrSet_run key ttl (map (\<lambda>i. Call i (t i) (r i)) [0..<n]) (init c n :: ('e, 'v) system) =
       \<lparr> cache = c', fetchCalls = n,
         callers = replicate n AwaitingFetch @ replicate (n - n) NotCalled \<rparr>"
    by blast
  then show ?thesis by simp
qed

lemma settle_stores_then_returns:
  assumes "i < length (callers s)" and "callers s ! i = AwaitingFetch"
    and "0 \<le> cacheTTL ttl (cache s)"
  shows "callers (getOrSet_step key ttl s (FetchSettled i now (Inr v) reply)) ! i =
           ReturnedFetched v \<and>
         map_of (inMemoryCache (cache (getOrSet_step key ttl s (FetchSettled i now (Inr v) reply))))
             key =
           Some \<lparr> entry_value = v, expiresAt = now + cacheTTL ttl (cache s) * 1000 \<rparr> \<and>
         fetchCalls (getOrSet_step key ttl s (FetchSettled i now (Inr v) reply)) = fetchCalls s"
  using assms cache_set_stores[OF assms(3), of now reply key v] by simp

lemma call_after_store_hits:
  assumes "i < length (callers s)" and "callers s ! i = NotCalled"
    and "map_of (inMemoryCache (cache s)) key = Some entry" and "now \<le> expiresAt entry"
    and "\<not> is_data reply"
  shows "callers (getOrSet_step key ttl s (Call i now reply)) ! i =
           ReturnedCached (entry_value entry) \<and>
         fetchCalls (getOrSet_step key ttl s (Call i now reply)) = fetchCalls s"
  using assms(1,2) cache_get_hit[OF assms(3,4,5)] by auto

text \<open>The model on the repository's cache tests.\<close>

lemma generateKey_test:
  "generateKey ''prefix'' [''part1'', ''part2'', ''123''] = ''prefix:part1:part2:123''"
  by (simp add: generateKey_def)

lemma getOrSet_sequential_test:
  "getOrSet_run ''test:getorset'' (Some 60)
     [Call 0 1000 GetNull, FetchSettled 0 1001 (Inr ''fetched'') WriteOk, Call 1 1002 GetNull]
     (init (new_CacheService False 30) 2 :: (string, string) system) =
   \<lparr> cache = \<lparr> client = False, defaultTTL = 30,
               inMemoryCache =
                 [(''test:getorset'', \<lparr> entry_value = ''fetched'', expiresAt = 61001 \<rparr>)],
               redisAvailable = False, redisEnabled = False \<rparr>,
     fetchCalls = 1,
     callers = [ReturnedFetched ''fetched'', ReturnedCached ''fetched''] \<rparr>"
  by code_simp

text \<open>A single caller of the interleaved model does what \<open>getOrSet\<close> does.\<close>

lemma getOrSet_single_caller:
  "getOrSet_run key ttl [Call 0 now reply, FetchSettled 0 now' fetched reply'] (init st 1) =
     \<lparr> cache = snd (getOrSet now reply key fetched now' reply' ttl st),
       fetchCalls = (case fst (cache_get now reply key st) of None \<Rightarrow> 1 | Some v \<Rightarrow> 0),
       callers = [case fst (cache_get now reply key st) of
                    Some v \<Rightarrow> ReturnedCached v
                  | None \<Rightarrow>
                      (case fetched of Inl e \<Rightarrow> Threw e | Inr data \<Rightarrow> ReturnedFetched data)] \<rparr>"
  by (auto simp: getOrSet_run_def init_def getOrSet_def
      split: prod.splits option.splits sum.splits)

text \<open>
  C1, as stated, fails for two callers that both look the key up before a result is
  stored: \<open>fetchFn\<close> is invoked twice, not once, and the callers return the values of
  their own invocations, which differ.
\<close>

theorem getOrSet_two_callers_counterexample:
  "fetchCalls (getOrSet_run ''tokens:aggregated'' (Some 30) two_callers
      (init (new_CacheService False 30) 2)) = 2 \<and>
   callers (getOrSet_run ''tokens:aggregated'' (Some 30) two_callers
      (init (new_CacheService False 30) 2)) =
     [ReturnedFetched [mock_A], ReturnedFetched [mock_B]]"
  by code_simp

text \<open>
  C1, amended. \<open>getOrSet\<close> does not share a computation in flight. In every interleaving
  of the callers of a key, the number of invocations of the compute function is the
  number of callers whose lookup missed. When N callers look the key up while nothing
  is stored for it (no entry in memory, no data from Redis), the compute function is
  invoked N times and all N callers await their own invocation. A caller whose
  invocation yields a value stores that value in the in-memory tier (for a ttl that is
  not negative) and then returns it, without a further invocation. A caller that looks
  the key up when an unexpired entry is in memory (and Redis gives no data) returns the
  stored value without invoking the compute function.
\<close>

theorem getOrSet_fetches_once_per_miss:
  fixes c :: "'v CacheService" and r :: "nat \<Rightarrow> 'v redis_get" and s :: "('e, 'v) system"
  shows
    "fetchCalls (getOrSet_run key ttl evs (init c n :: ('e, 'v) system)) =
       length (filter missed (callers (getOrSet_run key ttl evs (init c n :: ('e, 'v) system)))) \<and>
     (map_of (inMemoryCache c) key = None \<and> (\<forall>i<n. \<not> is_data (r i)) \<longrightarrow>
        fetchCalls (getOrSet_run key ttl (map (\<lambda>i. Call i (t i) (r i)) [0..<n])
          (init c n :: ('e, 'v) system)) = n \<and>
        callers (getOrSet_run key ttl (map (\<lambda>i. Call i (t i) (r i)) [0..<n])
          (init c n :: ('e, 'v) system)) = replicate n AwaitingFetch) \<and>
     (i < length (callers s) \<and> callers s ! i = AwaitingFetch \<and> 0 \<le> cacheTTL ttl (cache s) \<longrightarrow>
        callers (getOrSet_step key ttl s (FetchSettled i now (Inr v) reply)) ! i =
          ReturnedFetched v \<and>
        map_of (inMemoryCache (cache (getOrSet_step key ttl s (FetchSettled i now (Inr v) reply))))
            key =
          Some \<lparr> entry_value = v, expiresAt = now + cacheTTL ttl (cache s) * 1000 \<rparr> \<and>
        fetchCalls (getOrSet_step key ttl s (FetchSettled i now (Inr v) reply)) = fetchCalls s) \<and>
     (j < length (callers s) \<and> callers s ! j = NotCalled \<and>
      map_of (inMemoryCache (cache s)) key = Some entry \<and> now' \<le> expiresAt entry \<and>
      \<not> is_data reply' \<longrightarrow>
        callers (getOrSet_step key ttl s (Call j now' reply')) ! j =
          ReturnedCached (entry_value entry) \<and>
        fetchCalls (getOrSet_step key ttl s (Call j now' reply')) = fetchCalls s)"
proof (intro conjI impI)
  show "fetchCalls (getOrSet_run key ttl evs (init c n :: ('e, 'v) system)) =
       length (filter missed (callers (getOrSet_run key ttl evs (init c n :: ('e, 'v) system))))"
    by (rule run_fetchCalls) (simp add: init_def)
next
  assume h: "map_of (inMemoryCache c) key = None \<and> (\<forall>i<n. \<not> is_data (r i))"
  from h calls_all_miss[of c key n r ttl t]
  show "fetchCalls (getOrSet_run key ttl (map (\<lambda>i. Call i (t i) (r i)) [0..<n])
          (init c n :: ('e, 'v) system)) = n"
    by blast
  from h calls_all_miss[of c key n r ttl t]
  show "callers (getOrSet_run key ttl (map (\<lambda>i. Call i (t i) (r i)) [0..<n])
          (init c n :: ('e, 'v) system)) = replicate n AwaitingFetch"
    by blast
next
  assume h: "i < length (callers s) \<and> callers s ! i = AwaitingFetch \<and> 0 \<le> cacheTTL ttl (cache s)"
  then have *: "i < length (callers s)" "callers s ! i = AwaitingFetch"
    "0 \<le> cacheTTL ttl (cache s)"
    by simp_all
  from settle_stores_then_returns[OF *, of key now v reply]
  show "callers (getOrSet_step key ttl s (FetchSettled i now (Inr v) reply)) ! i =
          ReturnedFetched v"
    and "map_of (inMemoryCache (cache (getOrSet_step key ttl s (FetchSettled i now (Inr v) reply))))
            key =
          Some \<lparr> entry_value = v, expiresAt = now + cacheTTL ttl (cache s) * 1000 \<rparr>"
    and "fetchCalls (getOrSet_step key ttl s (FetchSettled i now (Inr v) reply)) = fetchCalls s"
    by blast+
next
  assume h: "j < length (callers s) \<and> callers s ! j = NotCalled \<and>
      map_of (inMemoryCache (cache s)) key = Some entry \<and> now' \<le> expiresAt entry \<and>
      \<not> is_data reply'"
  then have *: "j < length (callers s)" "callers s ! j = NotCalled"
    "map_of (inMemoryCache (cache s)) key = Some entry" "now' \<le> expiresAt entry"
    "\<not> is_data reply'"
    by simp_all
  from call_after_store_hits[OF *, of ttl]
  show "callers (getOrSet_step key ttl s (Call j now' reply')) ! j =
          ReturnedCached (entry_value entry)"
    and "fetchCalls (getOrSet_step key ttl s (Call j now' reply')) = fetchCalls s"
    by blast+
qed

theorem getOrSet_fetches_once_per_miss_witness:
  "fetchCalls (getOrSet_run ''tokens:aggregated'' (Some 30)
      (map (\<lambda>i. Call i 1000 GetNull) [0..<3])
      (init (new_CacheService False 30) 3 :: (string, Token list) system)) = 3"
proof -
  have h: "map_of (inMemoryCache (new_CacheService False 30 :: Token list CacheService))
        ''tokens:aggregated'' = None \<and>
      (\<forall>i<3. \<not> is_data ((\<lambda>i. GetNull :: Token list redis_get) i))"
    by (simp add: new_CacheService_def)
  from getOrSet_fetches_once_per_miss[where c = "new_CacheService False 30 :: Token list CacheService"
      and key = "''tokens:aggregated''" and n = 3 and r = "\<lambda>i. GetNull" and ttl = "Some 30"
      and t = "\<lambda>i. 1000", THEN conjunct2, THEN conjunct1, THEN mp, OF h]
  show ?thesis by (rule conjunct1)
qed

end
